theory Spec2Isabelle
  imports Main
begin

section \<open>The session supervisor of \<open>src/client.ts\<close> (class \<open>MultiServerMCPClient\<close>)\<close>

subsection \<open>JavaScript \<open>Map\<close>: keyed, iterated in insertion order\<close>

text \<open>
  A \<open>Map\<close> is an association list with distinct keys. \<open>set\<close> on a key that is
  present replaces the value where it stands; on a new key it appends. \<open>delete\<close>
  removes the entry; \<open>values()\<close> and \<open>entries()\<close> iterate in list order.
\<close>

fun map_get :: "('k \<times> 'v) list \<Rightarrow> 'k \<Rightarrow> 'v option" where
  "map_get [] k = None"
| "map_get ((k', v) # m) k = (if k' = k then Some v else map_get m k)"

definition map_has :: "('k \<times> 'v) list \<Rightarrow> 'k \<Rightarrow> bool" where
  "map_has m k = (map_get m k \<noteq> None)"

fun map_set :: "('k \<times> 'v) list \<Rightarrow> 'k \<Rightarrow> 'v \<Rightarrow> ('k \<times> 'v) list" where
  "map_set [] k v = [(k, v)]"
| "map_set ((k', v') # m) k v = (if k' = k then (k, v) # m else (k', v') # map_set m k v)"

fun map_delete :: "('k \<times> 'v) list \<Rightarrow> 'k \<Rightarrow> ('k \<times> 'v) list" where
  "map_delete [] k = []"
| "map_delete ((k', v) # m) k = (if k' = k then map_delete m k else (k', v) # map_delete m k)"

definition map_values :: "('k \<times> 'v) list \<Rightarrow> 'v list" where
  "map_values m = map snd m"

subsection \<open>Connection descriptors (interfaces \<open>StdioConnection\<close>, \<open>SSEConnection\<close>)\<close>

text \<open>
  The \<open>restart\<close> and \<open>reconnect\<close> sub-objects have the same three optional fields.
  An optional field that is absent (\<open>undefined\<close>) is \<open>None\<close>. The numeric fields are
  modelled as integers.
\<close>

record policy =
  enabled :: "bool option"
  maxAttempts :: "int option"
  delayMs :: "int option"

record StdioConnection =
  command :: string
  args :: "string list"
  env :: "(string \<times> string) list option"
  encoding :: "string option"
  encodingErrorHandler :: "string option"
  restart :: "policy option"

record SSEConnection =
  url :: string
  headers :: "(string \<times> string) list option"
  useNodeEventSource :: "bool option"
  reconnect :: "policy option"

text \<open>The \<open>transport\<close> discriminator of the union type \<open>Connection\<close> is the constructor.\<close>

datatype Connection = Stdio StdioConnection | SSE SSEConnection

subsection \<open>Errors\<close>

text \<open>
  \<open>class MCPClientError extends Error\<close> with \<open>constructor(message, serverName?)\<close>:
  the second component is the public field \<open>serverName\<close>, \<open>None\<close> when the constructor
  is called with one argument. A \<open>TypeError\<close> is what the runtime throws when a
  property of \<open>null\<close> is read or \<open>Object.entries(null)\<close> is called.
  \<open>error_text\<close> is what a template literal \<open>${error}\<close> renders: the error's
  name, a colon and the message.
\<close>

datatype error =
    MCPClientError (message: string) (serverName: "string option")
  | TypeError (message: string)

fun error_text :: "error \<Rightarrow> string" where
  "error_text (MCPClientError m n) = ''MCPClientError: '' @ m"
| "error_text (TypeError m) = ''TypeError: '' @ m"

definition quoted :: "string \<Rightarrow> string" where
  "quoted n = CHR 0x22 # n @ [CHR 0x22]"

subsection \<open>The collaborators outside the class\<close>

text \<open>
  Transports and protocol clients are objects of the SDK; the model knows them by
  identity. A tool is the object \<open>loadMcpTools\<close> returns; the supervisor only reads
  its \<open>name\<close>.

  What the outside world does during one run of \<open>initializeStdioConnection\<close> or
  \<open>initializeSSEConnection\<close> is an \<open>attempt\<close>: the transport object constructed,
  whether \<open>createSSETransport\<close> throws (only the SSE path can), the client object
  constructed, whether \<open>client.connect\<close> rejects, and what \<open>loadMcpTools\<close> yields.
  A rejection carries the text \<open>${error}\<close> renders. A \<open>world\<close> gives the attempt
  for a server name and an attempt number: 0 for \<open>initializeConnections\<close>, and the
  value of the counter \<open>attempts\<close> inside \<open>attemptReconnect\<close>.
\<close>

type_synonym transport = nat
type_synonym client = nat

datatype tool = Tool (tool_name: string)

record attempt =
  new_transport :: transport
  transport_error :: "string option"
  new_client :: client
  connect_error :: "string option"
  discovery :: "string + tool list"

type_synonym world = "string \<Rightarrow> nat \<Rightarrow> attempt"

subsection \<open>The supervisor's state\<close>

text \<open>
  A cleanup function is the closure pushed by the two initialisers; it captures the
  server name and the transport it closes. The handler a transport carries in its
  \<open>onclose\<close> property is the closure installed by \<open>setupStdioRestart\<close> or
  \<open>setupSSEReconnect\<close>, with the variables it captures; \<open>transport_onclose\<close> is the
  part of the heap that holds these properties.
\<close>

datatype cleanup = CloseStdio string transport | CloseSSE string transport

datatype close_hook =
    StdioRestartHook string StdioConnection policy
  | SSEReconnectHook string SSEConnection policy

record supervisor =
  clients :: "(string \<times> client) list"
  serverNameToTools :: "(string \<times> tool list) list"
  connections :: "(string \<times> Connection) list option"
  cleanupFunctions :: "cleanup list"
  transportInstances :: "(string \<times> transport) list"
  transport_onclose :: "(transport \<times> close_hook) list"

definition new_supervisor :: "(string \<times> Connection) list option \<Rightarrow> supervisor" where
  "new_supervisor cs = \<lparr> clients = [], serverNameToTools = [], connections = cs,
     cleanupFunctions = [], transportInstances = [], transport_onclose = [] \<rparr>"

subsection \<open>Connecting one server\<close>

text \<open>
  Each initialiser mutates the supervisor step by step and may throw in between, so it
  returns the list of the states it passes through, one per mutation in program order,
  and the error thrown, if any. The state it leaves is the last of them. The guard
  \<open>restart?.enabled\<close> (\<open>reconnect?.enabled\<close>) of the initialisers holds only for
  a policy that is present and whose flag is \<open>true\<close>.
\<close>

definition setupStdioRestart ::
  "string \<Rightarrow> transport \<Rightarrow> StdioConnection \<Rightarrow> policy \<Rightarrow> supervisor \<Rightarrow> supervisor" where
  "setupStdioRestart name t connection rst s =
     s\<lparr>transport_onclose := map_set (transport_onclose s) t (StdioRestartHook name connection rst)\<rparr>"

definition setupSSEReconnect ::
  "string \<Rightarrow> transport \<Rightarrow> SSEConnection \<Rightarrow> policy \<Rightarrow> supervisor \<Rightarrow> supervisor" where
  "setupSSEReconnect name t connection rc s =
     s\<lparr>transport_onclose := map_set (transport_onclose s) t (SSEReconnectHook name connection rc)\<rparr>"

text \<open>
  \<open>loadToolsForServer\<close>: on success the tool map gets the server's list; on failure
  an \<open>MCPClientError\<close> is thrown whose constructor gets the message only.
\<close>

definition loadToolsForServer ::
  "attempt \<Rightarrow> string \<Rightarrow> supervisor \<Rightarrow> supervisor list \<times> error option" where
  "loadToolsForServer a name s =
     (case discovery a of
        Inr tools \<Rightarrow> ([s\<lparr>serverNameToTools := map_set (serverNameToTools s) name tools\<rparr>], None)
      | Inl err \<Rightarrow>
          ([], Some (MCPClientError
                 (''Failed to load tools from server '' @ quoted name @ '': '' @ err) None)))"

definition initializeStdioConnection_steps ::
  "attempt \<Rightarrow> string \<Rightarrow> StdioConnection \<Rightarrow> supervisor \<Rightarrow> supervisor list \<times> error option" where
  "initializeStdioConnection_steps a name connection s =
     (let t = new_transport a;
          s1 = s\<lparr>transportInstances := map_set (transportInstances s) name t\<rparr>
      in case connect_error a of
           Some err \<Rightarrow>
             ([s1], Some (MCPClientError
                 (''Failed to connect to stdio server '' @ quoted name @ '': '' @ err) (Some name)))
         | None \<Rightarrow>
             (let s2 = (case restart connection of
                          Some rst \<Rightarrow> if enabled rst = Some True
                                      then setupStdioRestart name t connection rst s1 else s1
                        | None \<Rightarrow> s1);
                  s3 = s2\<lparr>clients := map_set (clients s2) name (new_client a)\<rparr>;
                  s4 = s3\<lparr>cleanupFunctions := cleanupFunctions s3 @ [CloseStdio name t]\<rparr>;
                  (tr, e) = loadToolsForServer a name s4
              in ([s1, s2, s3, s4] @ tr, e)))"

text \<open>
  The SSE initialiser wraps its whole body in a \<open>try\<close> whose handler rethrows every
  error, the inner \<open>MCPClientError\<close>s too, as a new \<open>MCPClientError\<close> with the server
  name.
\<close>

definition sse_wrap :: "string \<Rightarrow> string \<Rightarrow> error" where
  "sse_wrap name err =
     MCPClientError (''Failed to create SSE transport for server '' @ quoted name @ '': '' @ err)
       (Some name)"

definition initializeSSEConnection_steps ::
  "attempt \<Rightarrow> string \<Rightarrow> SSEConnection \<Rightarrow> supervisor \<Rightarrow> supervisor list \<times> error option" where
  "initializeSSEConnection_steps a name connection s =
     (case transport_error a of
        Some err \<Rightarrow> ([], Some (sse_wrap name err))
      | None \<Rightarrow>
          (let t = new_transport a;
               s1 = s\<lparr>transportInstances := map_set (transportInstances s) name t\<rparr>
           in case connect_error a of
                Some err \<Rightarrow>
                  ([s1], Some (sse_wrap name (error_text (MCPClientError
                      (''Failed to connect to SSE server '' @ quoted name @ '': '' @ err)
                      (Some name)))))
              | None \<Rightarrow>
                  (let s2 = (case reconnect connection of
                               Some rc \<Rightarrow> if enabled rc = Some True
                                          then setupSSEReconnect name t connection rc s1 else s1
                             | None \<Rightarrow> s1);
                       s3 = s2\<lparr>clients := map_set (clients s2) name (new_client a)\<rparr>;
                       s4 = s3\<lparr>cleanupFunctions := cleanupFunctions s3 @ [CloseSSE name t]\<rparr>;
                       (tr, e) = loadToolsForServer a name s4
                   in ([s1, s2, s3, s4] @ tr,
                       map_option (\<lambda>e'. sse_wrap name (error_text e')) e))))"

definition initialize_steps ::
  "attempt \<Rightarrow> string \<Rightarrow> Connection \<Rightarrow> supervisor \<Rightarrow> supervisor list \<times> error option" where
  "initialize_steps a name connection s =
     (case connection of
        Stdio c \<Rightarrow> initializeStdioConnection_steps a name c s
      | SSE c \<Rightarrow> initializeSSEConnection_steps a name c s)"

text \<open>The state an initialiser leaves behind, whether it returns or throws.\<close>

definition final_state :: "supervisor \<Rightarrow> supervisor list \<Rightarrow> supervisor" where
  "final_state s tr = last (s # tr)"

subsection \<open>Reconnecting (\<open>attemptReconnect\<close>, \<open>cleanupServerResources\<close>)\<close>

definition cleanupServerResources :: "string \<Rightarrow> supervisor \<Rightarrow> supervisor" where
  "cleanupServerResources name s =
     s\<lparr>clients := map_delete (clients s) name,
       serverNameToTools := map_delete (serverNameToTools s) name,
       transportInstances := map_delete (transportInstances s) name\<rparr>"

text \<open>
  What the reconnect path does that a caller or an operator can observe besides the
  maps: the debug log lines and the waits on the timer.
\<close>

datatype event =
    LogClosed string
  | LogAttempt string nat "int option"
  | Wait int
  | LogReconnected string
  | LogAttemptFailed string nat error
  | LogGaveUp string nat

text \<open>
  The local variables of \<open>attemptReconnect\<close> (\<open>connected\<close>, \<open>attempts\<close>), the
  supervisor, the events so far and every state the supervisor has passed through
  since the call began.
\<close>

record loop_state =
  connected :: bool
  attempts :: nat
  cur :: supervisor
  events :: "event list"
  states :: "supervisor list"

text \<open>
  One run of the loop body. The parameters are the function's parameters after their
  defaults have been applied: a number, or \<open>None\<close> for \<open>undefined\<close>. \<open>if (delayMs)\<close>
  waits for a number other than 0. The \<open>catch\<close> clause takes every error the
  initialiser throws and logs it; nothing in the body is outside the \<open>try\<close>
  except the counter and the log line.
\<close>

definition js_truthy_num :: "int option \<Rightarrow> bool" where
  "js_truthy_num n = (case n of None \<Rightarrow> False | Some v \<Rightarrow> v \<noteq> 0)"

definition reconnect_body ::
  "world \<Rightarrow> string \<Rightarrow> Connection \<Rightarrow> int option \<Rightarrow> int option \<Rightarrow> loop_state \<Rightarrow> loop_state" where
  "reconnect_body w name connection maxAtt delay st =
     (let n = attempts st + 1;
          ev = [LogAttempt name n (if js_truthy_num maxAtt then maxAtt else None)]
               @ (case delay of Some d \<Rightarrow> if d \<noteq> 0 then [Wait d] else [] | None \<Rightarrow> []);
          (tr, err) = initialize_steps (w name n) name connection (cur st);
          s' = final_state (cur st) tr
      in case err of
           Some e \<Rightarrow>
             st\<lparr>attempts := n, cur := s',
                events := events st @ ev @ [LogAttemptFailed name n e],
                states := states st @ tr\<rparr>
         | None \<Rightarrow>
             if map_has (clients s') name
             then st\<lparr>connected := True, attempts := n, cur := s',
                     events := events st @ ev @ [LogReconnected name],
                     states := states st @ tr\<rparr>
             else st\<lparr>attempts := n, cur := s', events := events st @ ev,
                     states := states st @ tr\<rparr>)"

text \<open>
  \<open>while (!connected && (maxAttempts === undefined || attempts < maxAttempts))\<close>.
  With \<open>maxAttempts\<close> undefined the loop has no bound, so the loop is a partial
  function: \<open>None\<close> is a run that never returns.
\<close>

definition loop_continues :: "int option \<Rightarrow> loop_state \<Rightarrow> bool" where
  "loop_continues maxAtt st =
     (\<not> connected st \<and> (case maxAtt of None \<Rightarrow> True | Some m \<Rightarrow> int (attempts st) < m))"

partial_function (option) reconnect_loop ::
  "world \<Rightarrow> string \<Rightarrow> Connection \<Rightarrow> int option \<Rightarrow> int option \<Rightarrow> loop_state \<Rightarrow> loop_state option"
where
  "reconnect_loop w name connection maxAtt delay st =
     (if loop_continues maxAtt st
      then reconnect_loop w name connection maxAtt delay
             (reconnect_body w name connection maxAtt delay st)
      else Some st)"

declare reconnect_loop.simps [code]

text \<open>
  A default parameter value (\<open>maxAttempts = 3\<close>, \<open>delayMs = 1000\<close>) replaces an
  argument that is \<open>undefined\<close>, and only that.
\<close>

definition default_param :: "int \<Rightarrow> int option \<Rightarrow> int option" where
  "default_param d arg = (case arg of None \<Rightarrow> Some d | Some v \<Rightarrow> Some v)"

text \<open>After the loop: \<open>if (!connected)\<close> one more error line is logged.\<close>

definition report_outcome :: "string \<Rightarrow> loop_state \<Rightarrow> loop_state" where
  "report_outcome name st =
     (if \<not> connected st then st\<lparr>events := events st @ [LogGaveUp name (attempts st)]\<rparr>
      else st)"

definition loop_start :: "supervisor \<Rightarrow> loop_state" where
  "loop_start s0 = \<lparr>connected = False, attempts = 0, cur = s0, events = [], states = [s0]\<rparr>"

definition attemptReconnect ::
  "world \<Rightarrow> string \<Rightarrow> Connection \<Rightarrow> int option \<Rightarrow> int option \<Rightarrow> supervisor \<Rightarrow> loop_state option" where
  "attemptReconnect w name connection maxAttempts_arg delayMs_arg s =
     (let maxAtt = default_param 3 maxAttempts_arg;
          delay = default_param 1000 delayMs_arg;
          s0 = cleanupServerResources name s
      in map_option (report_outcome name)
           (reconnect_loop w name connection maxAtt delay (loop_start s0)))"

text \<open>
  The handlers installed on a transport. The handler that was there before is the
  SDK's own and does not touch the supervisor. The reconnect path is entered only
  while the client map still has the server.
\<close>

definition no_reconnect :: "supervisor \<Rightarrow> loop_state" where
  "no_reconnect s = \<lparr>connected = False, attempts = 0, cur = s, events = [], states = []\<rparr>"

definition log_first :: "event \<Rightarrow> loop_state \<Rightarrow> loop_state" where
  "log_first e st = st\<lparr>events := e # events st\<rparr>"

definition stdio_onclose ::
  "world \<Rightarrow> string \<Rightarrow> StdioConnection \<Rightarrow> policy \<Rightarrow> supervisor \<Rightarrow> loop_state option" where
  "stdio_onclose w name connection rst s =
     (if map_has (clients s) name
      then map_option (log_first (LogClosed name))
             (attemptReconnect w name (Stdio connection) (maxAttempts rst) (delayMs rst) s)
      else Some (no_reconnect s))"

definition sse_onclose ::
  "world \<Rightarrow> string \<Rightarrow> SSEConnection \<Rightarrow> policy \<Rightarrow> supervisor \<Rightarrow> loop_state option" where
  "sse_onclose w name connection rc s =
     (if map_has (clients s) name
      then map_option (log_first (LogClosed name))
             (attemptReconnect w name (SSE connection) (maxAttempts rc) (delayMs rc) s)
      else Some (no_reconnect s))"

text \<open>The runtime calls a transport's \<open>onclose\<close> handler when the transport closes.\<close>

definition transport_closed :: "world \<Rightarrow> transport \<Rightarrow> supervisor \<Rightarrow> loop_state option" where
  "transport_closed w t s =
     (case map_get (transport_onclose s) t of
        None \<Rightarrow> Some (no_reconnect s)
      | Some (StdioRestartHook name c rst) \<Rightarrow> stdio_onclose w name c rst s
      | Some (SSEReconnectHook name c rc) \<Rightarrow> sse_onclose w name c rc s)"

subsection \<open>Connecting all servers (\<open>initializeConnections\<close>)\<close>

text \<open>
  \<open>Object.entries(this.connections)\<close> is the list of configured servers. The loop
  stops at the first initialiser that throws, and the error leaves the method.
\<close>

fun initialize_all ::
  "world \<Rightarrow> (string \<times> Connection) list \<Rightarrow> supervisor \<Rightarrow> supervisor \<times> error option" where
  "initialize_all w [] s = (s, None)"
| "initialize_all w ((name, connection) # rest) s =
     (let (tr, err) = initialize_steps (w name 0) name connection s;
          s' = final_state s tr
      in case err of
           Some e \<Rightarrow> (s', Some e)
         | None \<Rightarrow> initialize_all w rest s')"

text \<open>
  The method returns the tool map (empty when there is nothing to connect), or throws.
\<close>

definition initializeConnections ::
  "world \<Rightarrow> supervisor \<Rightarrow> supervisor \<times> (error + (string \<times> tool list) list)" where
  "initializeConnections w s =
     (case connections s of
        None \<Rightarrow> (s, Inr [])
      | Some cs \<Rightarrow>
          if cs = [] then (s, Inr [])
          else (case initialize_all w cs s of
                  (s', Some e) \<Rightarrow> (s', Inl e)
                | (s', None) \<Rightarrow> (s', Inr (serverNameToTools s'))))"

subsection \<open>Tool queries (\<open>getTools\<close>, \<open>getClient\<close>, \<open>getServerForTool\<close>)\<close>

text \<open>Both helpers push each list onto an accumulator, in iteration order.\<close>

definition getAllToolsAsFlatArray :: "supervisor \<Rightarrow> tool list" where
  "getAllToolsAsFlatArray s =
     foldl (\<lambda>allTools tools. allTools @ tools) [] (map_values (serverNameToTools s))"

definition getToolsFromServers :: "string list \<Rightarrow> supervisor \<Rightarrow> tool list" where
  "getToolsFromServers serverNames s =
     foldl (\<lambda>allTools serverName.
              case map_get (serverNameToTools s) serverName of
                Some tools \<Rightarrow> allTools @ tools
              | None \<Rightarrow> allTools)
       [] serverNames"

text \<open>\<open>getTools(servers?)\<close>: the argument is absent (\<open>None\<close>) or an array of names.\<close>

definition getTools :: "string list option \<Rightarrow> supervisor \<Rightarrow> tool list" where
  "getTools servers s =
     (case servers of
        None \<Rightarrow> getAllToolsAsFlatArray s
      | Some names \<Rightarrow>
          if length names = 0 then getAllToolsAsFlatArray s
          else getToolsFromServers names s)"

definition getClient :: "string \<Rightarrow> supervisor \<Rightarrow> client option" where
  "getClient name s = map_get (clients s) name"

fun getServerForTool_loop :: "(string \<times> tool list) list \<Rightarrow> string \<Rightarrow> string option" where
  "getServerForTool_loop [] toolName = None"
| "getServerForTool_loop ((name, tools) # m) toolName =
     (if list_ex (\<lambda>t. tool_name t = toolName) tools then Some name
      else getServerForTool_loop m toolName)"

definition getServerForTool :: "string \<Rightarrow> supervisor \<Rightarrow> string option" where
  "getServerForTool toolName s = getServerForTool_loop (serverNameToTools s) toolName"

subsection \<open>Shutdown (\<open>close\<close>)\<close>

text \<open>
  A cleanup function closes its transport; whether that rejects is the world's
  answer for the transport (\<open>Some\<close> the error text). The loop calls every function of
  the ledger inside its own \<open>try\<close>, logs a rejection and goes on. The closures do not
  call back into the supervisor.
\<close>

datatype close_event = Closing cleanup | CleanupError string

definition cleanup_transport :: "cleanup \<Rightarrow> transport" where
  "cleanup_transport c = (case c of CloseStdio n t \<Rightarrow> t | CloseSSE n t \<Rightarrow> t)"

fun run_cleanups :: "(transport \<Rightarrow> string option) \<Rightarrow> cleanup list \<Rightarrow> close_event list" where
  "run_cleanups close_error [] = []"
| "run_cleanups close_error (c # cs) =
     (case close_error (cleanup_transport c) of
        None \<Rightarrow> Closing c # run_cleanups close_error cs
      | Some err \<Rightarrow> Closing c # CleanupError err # run_cleanups close_error cs)"

text \<open>\<open>close()\<close> returns the state it leaves, the error that escapes (none can) and the log.\<close>

definition close ::
  "(transport \<Rightarrow> string option) \<Rightarrow> supervisor \<Rightarrow> supervisor \<times> error option \<times> close_event list" where
  "close close_error s =
     (let log = run_cleanups close_error (cleanupFunctions s)
      in (s\<lparr>cleanupFunctions := [], clients := [], serverNameToTools := [],
            transportInstances := []\<rparr>, None, log))"

subsection \<open>Notions the statements below use\<close>

text \<open>
  The error an initialiser throws on an attempt. It is read off a run from the empty
  supervisor: the error does not depend on the state the run starts in
  (\<open>initialize_steps_error_indep\<close> below).
\<close>

definition attempt_error :: "attempt \<Rightarrow> string \<Rightarrow> Connection \<Rightarrow> error option" where
  "attempt_error a name connection = snd (initialize_steps a name connection (new_supervisor None))"

text \<open>The timer waits among the events, in order; the cleanup functions a shutdown called.\<close>

fun waits :: "event list \<Rightarrow> int list" where
  "waits [] = []"
| "waits (Wait d # es) = d # waits es"
| "waits (e # es) = waits es"

fun invoked :: "close_event list \<Rightarrow> cleanup list" where
  "invoked [] = []"
| "invoked (Closing c # es) = c # invoked es"
| "invoked (e # es) = invoked es"

text \<open>
  The tool queries in the words of the specification: all tools are the lists of the
  registry one after the other in its iteration order; the tools for a list of names
  are the lists of these names one after the other, nothing for a name without an
  entry.
\<close>

definition spec_allTools :: "supervisor \<Rightarrow> tool list" where
  "spec_allTools s = concat (map snd (serverNameToTools s))"

definition spec_toolsFor :: "string list \<Rightarrow> supervisor \<Rightarrow> tool list" where
  "spec_toolsFor names s =
     concat (map (\<lambda>n. case map_get (serverNameToTools s) n of None \<Rightarrow> [] | Some ts \<Rightarrow> ts) names)"

text \<open>
  The default delay in the words of the specification: 1000 for a local process,
  3000 for a remote stream.
\<close>

definition spec_default_delayMs :: "Connection \<Rightarrow> int" where
  "spec_default_delayMs connection = (case connection of Stdio c \<Rightarrow> 1000 | SSE c \<Rightarrow> 3000)"

text \<open>
  A session counts as opened once \<open>client.connect\<close> has resolved; the cleanup
  function pushed for it closes the transport of that attempt.
\<close>

definition session_opened :: "attempt \<Rightarrow> Connection \<Rightarrow> bool" where
  "session_opened a connection =
     (connect_error a = None
      \<and> (case connection of Stdio c \<Rightarrow> True | SSE c \<Rightarrow> transport_error a = None))"

definition session_cleanup :: "string \<Rightarrow> Connection \<Rightarrow> attempt \<Rightarrow> cleanup" where
  "session_cleanup name connection a =
     (case connection of
        Stdio c \<Rightarrow> CloseStdio name (new_transport a)
      | SSE c \<Rightarrow> CloseSSE name (new_transport a))"

text \<open>Invariants of the reconnect loop.\<close>

definition evict_inv :: "world \<Rightarrow> string \<Rightarrow> supervisor \<Rightarrow> loop_state \<Rightarrow> bool" where
  "evict_inv w name s0 st \<longleftrightarrow>
     states st \<noteq> [] \<and> hd (states st) = s0 \<and> last (states st) = cur st
     \<and> (\<forall>x\<in>set (butlast (states st)). map_get (serverNameToTools x) name = None)
     \<and> (if connected st
        then \<exists>ts. discovery (w name (attempts st)) = Inr ts
                \<and> map_get (serverNameToTools (cur st)) name = Some ts
        else map_get (serverNameToTools (cur st)) name = None)"

definition caught_inv ::
  "world \<Rightarrow> string \<Rightarrow> Connection \<Rightarrow> supervisor \<Rightarrow> loop_state \<Rightarrow> bool" where
  "caught_inv w name c s st \<longleftrightarrow>
     (\<forall>k e. 1 \<le> k \<and> k \<le> attempts st \<and> attempt_error (w name k) name c = Some e
        \<longrightarrow> LogAttemptFailed name k e \<in> set (events st))
     \<and> (\<not> connected st \<longrightarrow>
          serverNameToTools (cur st) = map_delete (serverNameToTools s) name)"

subsection \<open>Example servers and worlds\<close>

text \<open>
  The servers of the specification's scenarios: \<open>fs\<close>, a local process, and
  \<open>search\<close>, a remote stream. Their policies are enabled; the first pair leaves
  \<open>maxAttempts\<close> and \<open>delayMs\<close> out, \<open>fs_twice\<close> is the scenario
  \<open>{enabled: true, maxAttempts: 2, delayMs: 0}\<close>.
\<close>

definition fs_connection :: StdioConnection where
  "fs_connection = \<lparr>command = ''node'', args = [''fs-server.js''], env = None, encoding = None,
     encodingErrorHandler = None,
     restart = Some \<lparr>enabled = Some True, maxAttempts = None, delayMs = None\<rparr>\<rparr>"

definition fs_twice :: StdioConnection where
  "fs_twice = fs_connection\<lparr>restart :=
     Some \<lparr>enabled = Some True, maxAttempts = Some 2, delayMs = Some 0\<rparr>\<rparr>"

definition search_connection :: SSEConnection where
  "search_connection = \<lparr>url = ''https://api.example.com/mcp'', headers = None,
     useNodeEventSource = None,
     reconnect = Some \<lparr>enabled = Some True, maxAttempts = None, delayMs = None\<rparr>\<rparr>"

text \<open>
  \<open>down_after_start\<close>: the first connection of every server succeeds and discovers
  one tool; afterwards every connect is refused. \<open>flaky\<close>: the first reconnect is
  refused, the second connects and fails in discovery, the third succeeds.
  \<open>discovery_fails_for_fs\<close>: every server connects; discovery fails for \<open>fs\<close> only.
  Every attempt constructs a transport and a client of its own.
\<close>

definition fresh_id :: "string \<Rightarrow> nat \<Rightarrow> nat" where
  "fresh_id name k = 10 * length name + k"

definition down_after_start :: world where
  "down_after_start name k = \<lparr>new_transport = fresh_id name k, transport_error = None,
     new_client = fresh_id name k,
     connect_error = (if k = 0 then None else Some ''ECONNREFUSED''),
     discovery = Inr [Tool (name @ ''_tool'')]\<rparr>"

definition flaky :: world where
  "flaky name k = \<lparr>new_transport = fresh_id name k, transport_error = None,
     new_client = fresh_id name k,
     connect_error = (if k = 1 then Some ''ECONNREFUSED'' else None),
     discovery = (if k = 2 then Inl ''timeout'' else Inr [Tool (name @ ''_tool'')])\<rparr>"

definition discovery_fails_for_fs :: world where
  "discovery_fails_for_fs name k = \<lparr>new_transport = fresh_id name k, transport_error = None,
     new_client = fresh_id name k,
     connect_error = None,
     discovery = (if name = ''fs'' then Inl ''timeout'' else Inr [Tool (name @ ''_tool'')])\<rparr>"

definition fs_started :: supervisor where
  "fs_started = fst (initializeConnections down_after_start
                       (new_supervisor (Some [(''fs'', Stdio fs_connection)])))"

definition scenario_started :: supervisor where
  "scenario_started = fst (initializeConnections down_after_start
                       (new_supervisor (Some [(''fs'', Stdio fs_twice),
                                              (''search'', SSE search_connection)])))"

definition search_started :: supervisor where
  "search_started = fst (initializeConnections down_after_start
                       (new_supervisor (Some [(''search'', SSE search_connection)])))"

definition both_started :: supervisor where
  "both_started = fst (initializeConnections down_after_start
                       (new_supervisor (Some [(''fs'', Stdio fs_connection),
                                              (''search'', SSE search_connection)])))"

definition three_servers :: supervisor where
  "three_servers = new_supervisor (Some [(''search'', SSE search_connection),
                                         (''fs'', Stdio fs_connection),
                                         (''late'', Stdio fs_twice)])"

text \<open>A shutdown during which closing the transport of \<open>fs\<close> rejects.\<close>

definition fs_close_fails :: "transport \<Rightarrow> string option" where
  "fs_close_fails t = (if t = fresh_id ''fs'' 0 then Some ''EPIPE'' else None)"

section \<open>Configuration: loading, interpolation and validation\<close>

subsection \<open>JSON values and the JavaScript operations on them\<close>

text \<open>
  What \<open>JSON.parse\<close> returns. An object is the list of its entries in the order
  \<open>Object.entries\<close> gives them; numbers are modelled as integers. \<open>JFunction\<close> is
  a function object, known by its name: no parsed file has one, but interpolation can
  store one (see \<open>process_env\<close> below).
\<close>

datatype json =
    JNull
  | JBool bool
  | JNum int
  | JStr string
  | JArr "json list"
  | JObj "(string \<times> json) list"
  | JFunction string

text \<open>
  \<open>typeof v === "object"\<close> holds of objects, arrays and \<open>null\<close>; of a function
  \<open>typeof\<close> is \<open>"function"\<close>.
\<close>

fun typeof_object :: "json \<Rightarrow> bool" where
  "typeof_object JNull = True"
| "typeof_object (JArr vs) = True"
| "typeof_object (JObj kvs) = True"
| "typeof_object v = False"

fun js_truthy :: "json \<Rightarrow> bool" where
  "js_truthy JNull = False"
| "js_truthy (JBool b) = b"
| "js_truthy (JNum n) = (n \<noteq> 0)"
| "js_truthy (JStr s) = (s \<noteq> [])"
| "js_truthy (JArr vs) = True"
| "js_truthy (JObj kvs) = True"
| "js_truthy (JFunction f) = True"

fun is_string :: "json \<Rightarrow> bool" where
  "is_string (JStr s) = True"
| "is_string v = False"

fun is_boolean :: "json \<Rightarrow> bool" where
  "is_boolean (JBool b) = True"
| "is_boolean v = False"

fun is_number :: "json \<Rightarrow> bool" where
  "is_number (JNum n) = True"
| "is_number v = False"

fun is_array :: "json \<Rightarrow> bool" where
  "is_array (JArr vs) = True"
| "is_array v = False"

text \<open>
  Reading a property named by an identifier (\<open>config.command\<close>) from a value that is
  not \<open>null\<close>: an object has it when it has the key; arrays and primitives have none of
  the properties this file reads. \<open>None\<close> is \<open>undefined\<close>. \<open>"k" in config\<close> holds
  exactly when the read is not \<open>undefined\<close>, since parsed JSON stores no \<open>undefined\<close>.
\<close>

fun get_prop :: "json \<Rightarrow> string \<Rightarrow> json option" where
  "get_prop (JObj kvs) k = map_get kvs k"
| "get_prop v k = None"

definition has_key :: "json \<Rightarrow> string \<Rightarrow> bool" where
  "has_key v k = (get_prop v k \<noteq> None)"

fun set_prop :: "json \<Rightarrow> string \<Rightarrow> json \<Rightarrow> json" where
  "set_prop (JObj kvs) k v = JObj (map_set kvs k v)"
| "set_prop w k v = w"

text \<open>
  \<open>Object.entries\<close>: the entries of an object; index and element for an array, index
  and character for a string; nothing for a number, a boolean or a function; a
  \<open>TypeError\<close> (\<open>None\<close>) for \<open>null\<close>.
\<close>

definition digit :: "nat \<Rightarrow> char" where
  "digit d = char_of (48 + d)"

fun decimal :: "nat \<Rightarrow> string" where
  "decimal n = (if n < 10 then [digit n] else decimal (n div 10) @ [digit (n mod 10)])"

definition indexed :: "'a list \<Rightarrow> (string \<times> 'a) list" where
  "indexed xs = zip (map decimal [0..<length xs]) xs"

fun object_entries :: "json \<Rightarrow> (string \<times> json) list option" where
  "object_entries JNull = None"
| "object_entries (JObj kvs) = Some kvs"
| "object_entries (JArr vs) = Some (indexed vs)"
| "object_entries (JStr s) = Some (indexed (map (\<lambda>c. JStr [c]) s))"
| "object_entries v = Some []"

subsection \<open>Interpolation (\<open>processEnvVarsInConfig\<close>, \<open>processEnvVarsRecursively\<close>)\<close>

text \<open>
  A value is taken for a placeholder when it \<open>startsWith("${")\<close> and
  \<open>endsWith("}")\<close>; the variable name is \<open>value.slice(2, -1)\<close>.

  The parameter \<open>penv\<close> of the functions below is the lookup \<open>process.env[envVar]\<close>:
  a string for a variable that is set, \<open>None\<close> for \<open>undefined\<close>, and any other
  value the object answers with. \<open>process_env\<close> is that lookup for an environment
  given by its variables: an unset name that \<open>Object.prototype\<close> defines answers with
  the inherited function, or with the prototype object for \<open>__proto__\<close>. The test
  \<open>if (envValue)\<close> holds for every truthy answer: a string other than the empty
  one, a function, an object.
\<close>

definition object_prototype_functions :: "string list" where
  "object_prototype_functions =
     [''constructor'', ''hasOwnProperty'', ''isPrototypeOf'', ''propertyIsEnumerable'',
      ''toLocaleString'', ''toString'', ''valueOf'', ''__defineGetter__'', ''__defineSetter__'',
      ''__lookupGetter__'', ''__lookupSetter__'']"

definition process_env :: "(string \<times> string) list \<Rightarrow> string \<Rightarrow> json option" where
  "process_env vars name =
     (case map_get vars name of
        Some v \<Rightarrow> Some (JStr v)
      | None \<Rightarrow>
          if name \<in> set object_prototype_functions then Some (JFunction name)
          else if name = ''__proto__'' then Some (JObj [])
          else None)"

definition is_placeholder :: "string \<Rightarrow> bool" where
  "is_placeholder v = (take 2 v = ''${'' \<and> v \<noteq> [] \<and> last v = CHR ''}'')"

definition slice_2_m1 :: "string \<Rightarrow> string" where
  "slice_2_m1 v = take (length v - 3) (drop 2 v)"

definition env_value :: "(string \<Rightarrow> json option) \<Rightarrow> string \<Rightarrow> json option" where
  "env_value penv envVar =
     (case penv envVar of Some e \<Rightarrow> if js_truthy e then Some e else None | None \<Rightarrow> None)"

text \<open>
  \<open>processEnvVarsRecursively\<close> visits the entries of an object or array. A
  placeholder string is replaced by the answer of the lookup when that is truthy, and
  left alone otherwise, without a log line. An object or array under a key other than \<open>env\<close>
  is visited in turn; the keys of an array are its indices, never \<open>env\<close>.
\<close>

fun processEnvVarsRecursively :: "(string \<Rightarrow> json option) \<Rightarrow> json \<Rightarrow> json"
  and pevr_entries :: "(string \<Rightarrow> json option) \<Rightarrow> (string \<times> json) list \<Rightarrow> (string \<times> json) list"
  and pevr_items :: "(string \<Rightarrow> json option) \<Rightarrow> json list \<Rightarrow> json list"
where
  "processEnvVarsRecursively penv (JObj kvs) = JObj (pevr_entries penv kvs)"
| "processEnvVarsRecursively penv (JArr vs) = JArr (pevr_items penv vs)"
| "processEnvVarsRecursively penv JNull = JNull"
| "processEnvVarsRecursively penv (JBool b) = JBool b"
| "processEnvVarsRecursively penv (JNum n) = JNum n"
| "processEnvVarsRecursively penv (JStr s) = JStr s"
| "processEnvVarsRecursively penv (JFunction f) = JFunction f"
| "pevr_entries penv [] = []"
| "pevr_entries penv ((key, value) # kvs) =
     (key, case value of
             JStr s \<Rightarrow>
               if is_placeholder s
               then (case env_value penv (slice_2_m1 s) of Some e \<Rightarrow> e | None \<Rightarrow> value)
               else value
           | JObj x \<Rightarrow> if key \<noteq> ''env'' then processEnvVarsRecursively penv value else value
           | JArr x \<Rightarrow> if key \<noteq> ''env'' then processEnvVarsRecursively penv value else value
           | _ \<Rightarrow> value)
     # pevr_entries penv kvs"
| "pevr_items penv [] = []"
| "pevr_items penv (value # vs) =
     (case value of
        JStr s \<Rightarrow>
          if is_placeholder s
          then (case env_value penv (slice_2_m1 s) of Some e \<Rightarrow> e | None \<Rightarrow> value)
          else value
      | JObj x \<Rightarrow> processEnvVarsRecursively penv value
      | JArr x \<Rightarrow> processEnvVarsRecursively penv value
      | _ \<Rightarrow> value)
     # pevr_items penv vs"

text \<open>
  The first pass of \<open>processEnvVarsInConfig\<close> over the entries of \<open>config.env\<close>:
  a placeholder is replaced, or a warning with the variable and the server name is
  logged.
\<close>

datatype warning =
    EnvVarNotFound string string
  | InvalidConfiguration string

definition env_pass_value ::
  "(string \<Rightarrow> json option) \<Rightarrow> string \<Rightarrow> json \<Rightarrow> json \<times> warning list" where
  "env_pass_value penv server value =
     (case value of
        JStr s \<Rightarrow>
          if is_placeholder s
          then (case env_value penv (slice_2_m1 s) of
                  Some e \<Rightarrow> (e, [])
                | None \<Rightarrow> (value, [EnvVarNotFound (slice_2_m1 s) server]))
          else (value, [])
      | _ \<Rightarrow> (value, []))"

definition env_pass ::
  "(string \<Rightarrow> json option) \<Rightarrow> string \<Rightarrow> json \<Rightarrow> json \<times> warning list" where
  "env_pass penv server envObj =
     (case envObj of
        JObj kvs \<Rightarrow>
          (JObj (map (\<lambda>(k, v). (k, fst (env_pass_value penv server v))) kvs),
           concat (map (\<lambda>(k, v). snd (env_pass_value penv server v)) kvs))
      | JArr vs \<Rightarrow>
          (JArr (map (\<lambda>v. fst (env_pass_value penv server v)) vs),
           concat (map (\<lambda>v. snd (env_pass_value penv server v)) vs))
      | _ \<Rightarrow> (envObj, []))"

text \<open>The body of the loop of \<open>processEnvVarsInConfig\<close> for one server.\<close>

definition processEnvVars_server ::
  "(string \<Rightarrow> json option) \<Rightarrow> string \<Rightarrow> json \<Rightarrow> json \<times> warning list" where
  "processEnvVars_server penv server config =
     (if \<not> typeof_object config \<or> config = JNull then (config, [])
      else
        (let (config1, ws) =
               (case get_prop config ''env'' of
                  Some e \<Rightarrow>
                    if js_truthy e \<and> typeof_object e
                    then (let (e', ws') = env_pass penv server e
                          in (set_prop config ''env'' e', ws'))
                    else (config, [])
                | None \<Rightarrow> (config, []))
         in (processEnvVarsRecursively penv config1, ws)))"

text \<open>
  \<open>loadConfigFromFile\<close>, from the value \<open>JSON.parse\<close> returned. Only the entries of
  \<open>servers\<close> whose \<open>transport\<close> is the string \<open>stdio\<close> are handed to
  \<open>processEnvVarsInConfig\<close>; the filter reads \<open>value.transport\<close> of every entry, which
  throws for \<open>null\<close>. The objects are changed in place, so the value returned is the
  parsed one with these entries interpolated.
\<close>

definition is_stdio_entry :: "json \<Rightarrow> bool" where
  "is_stdio_entry value = (get_prop value ''transport'' = Some (JStr ''stdio''))"

definition interpolate_entry ::
  "(string \<Rightarrow> json option) \<Rightarrow> string \<times> json \<Rightarrow> (string \<times> json) \<times> warning list" where
  "interpolate_entry penv entry =
     (if is_stdio_entry (snd entry)
      then (let (c, ws) = processEnvVars_server penv (fst entry) (snd entry)
            in ((fst entry, c), ws))
      else (entry, []))"

fun rebuild :: "json \<Rightarrow> (string \<times> json) list \<Rightarrow> json" where
  "rebuild (JObj kvs) entries = JObj entries"
| "rebuild (JArr vs) entries = JArr (map snd entries)"
| "rebuild v entries = v"

definition squoted :: "string \<Rightarrow> string" where
  "squoted n = CHR 0x27 # n @ [CHR 0x27]"

definition loadConfigFromFile ::
  "(string \<Rightarrow> json option) \<Rightarrow> json \<Rightarrow> error + (json \<times> warning list)" where
  "loadConfigFromFile penv config =
     (if \<not> js_truthy config \<or> \<not> typeof_object config \<or> \<not> has_key config ''servers''
      then Inl (MCPClientError
                 (''Invalid MCP configuration: missing '' @ squoted ''servers'' @ '' property'') None)
      else
        (case get_prop config ''servers'' of
           None \<Rightarrow> Inl (TypeError ''Cannot convert undefined or null to object'')
         | Some servers \<Rightarrow>
            (case object_entries servers of
               None \<Rightarrow> Inl (TypeError ''Cannot convert undefined or null to object'')
             | Some entries \<Rightarrow>
                 if list_ex (\<lambda>entry. snd entry = JNull) entries
                 then Inl (TypeError (''Cannot read properties of null (reading ''
                                       @ squoted ''transport'' @ '')''))
                 else
                   (let rs = map (interpolate_entry penv) entries
                    in Inr (set_prop config ''servers'' (rebuild servers (map fst rs)),
                            concat (map snd rs))))))"

subsection \<open>Validation (\<open>processConnections\<close>, \<open>processStdioConfig\<close>, \<open>processSSEConfig\<close>)\<close>

text \<open>
  The tests \<open>x !== undefined && typeof x !== "t"\<close> on an optional field, and the
  readings of a field that has passed them. \<open>Boolean(x)\<close> of an absent field is
  \<open>false\<close>. Every error of the validation is constructed from a message alone.
\<close>

definition present_but_not :: "(json \<Rightarrow> bool) \<Rightarrow> json option \<Rightarrow> bool" where
  "present_but_not is_t x = (case x of None \<Rightarrow> False | Some v \<Rightarrow> \<not> is_t v)"

definition present_and :: "(json \<Rightarrow> bool) \<Rightarrow> json option \<Rightarrow> bool" where
  "present_and is_t x = (case x of None \<Rightarrow> False | Some v \<Rightarrow> is_t v)"

definition truthy_and :: "(json \<Rightarrow> bool) \<Rightarrow> json option \<Rightarrow> bool" where
  "truthy_and p x = (case x of None \<Rightarrow> False | Some v \<Rightarrow> js_truthy v \<and> p v)"

fun as_string :: "json option \<Rightarrow> string option" where
  "as_string (Some (JStr s)) = Some s"
| "as_string x = None"

fun as_number :: "json option \<Rightarrow> int option" where
  "as_number (Some (JNum n)) = Some n"
| "as_number x = None"

fun as_boolean :: "json option \<Rightarrow> bool option" where
  "as_boolean (Some (JBool b)) = Some b"
| "as_boolean x = None"

definition js_Boolean :: "json option \<Rightarrow> bool" where
  "js_Boolean x = (case x of None \<Rightarrow> False | Some v \<Rightarrow> js_truthy v)"

fun strings_of :: "json list \<Rightarrow> string list" where
  "strings_of [] = []"
| "strings_of (JStr s # vs) = s # strings_of vs"
| "strings_of (v # vs) = strings_of vs"

fun string_entries :: "(string \<times> json) list \<Rightarrow> (string \<times> string) list" where
  "string_entries [] = []"
| "string_entries ((k, JStr s) # kvs) = (k, s) # string_entries kvs"
| "string_entries ((k, v) # kvs) = string_entries kvs"

definition object_values :: "json \<Rightarrow> json list" where
  "object_values v = (case object_entries v of None \<Rightarrow> [] | Some kvs \<Rightarrow> map snd kvs)"

definition invalid :: "string \<Rightarrow> string \<Rightarrow> string \<Rightarrow> error" where
  "invalid what server must =
     MCPClientError (''Invalid '' @ what @ '' for server '' @ [CHR 0x22] @ server @ '' - '' @ must)
       None"

text \<open>
  The \<open>restart\<close> and \<open>reconnect\<close> blocks of the two validators are the same code but
  for the name in the messages. A policy that is present and truthy must be an object;
  the validated policy always has \<open>enabled\<close>, and the two numbers only when given.
\<close>

definition process_policy :: "string \<Rightarrow> string \<Rightarrow> json option \<Rightarrow> error + policy option" where
  "process_policy label server p =
     (if truthy_and (\<lambda>v. \<not> typeof_object v) p then Inl (invalid label server ''must be an object'')
      else if truthy_and typeof_object p
      then (case p of
              None \<Rightarrow> Inr None
            | Some r \<Rightarrow>
                if present_but_not is_boolean (get_prop r ''enabled'')
                then Inl (invalid (label @ ''.enabled'') server ''must be a boolean'')
                else if present_but_not is_number (get_prop r ''maxAttempts'')
                then Inl (invalid (label @ ''.maxAttempts'') server ''must be a number'')
                else if present_but_not is_number (get_prop r ''delayMs'')
                then Inl (invalid (label @ ''.delayMs'') server ''must be a number'')
                else Inr (Some \<lparr>enabled = Some (js_Boolean (get_prop r ''enabled'')),
                                 maxAttempts = as_number (get_prop r ''maxAttempts''),
                                 delayMs = as_number (get_prop r ''delayMs'')\<rparr>))
      else Inr None)"

text \<open>
  The checks on a map of strings (\<open>env\<close>, \<open>headers\<close>): a truthy value must be an
  object, not an array, with string values. The first of the messages differs
  between the two.
\<close>

definition check_string_map ::
  "string \<Rightarrow> string \<Rightarrow> string \<Rightarrow> json option \<Rightarrow> error + (string \<times> string) list option" where
  "check_string_map label first_must server m =
     (if truthy_and (\<lambda>v. \<not> typeof_object v) m then Inl (invalid label server first_must)
      else if truthy_and (\<lambda>v. typeof_object v \<and> is_array v) m
      then Inl (invalid label server ''must be an object of key-value pairs'')
      else if truthy_and (\<lambda>v. typeof_object v \<and> \<not> list_all is_string (object_values v)) m
      then Inl (invalid label server ''must be an object of key-value pairs with string values'')
      else if truthy_and typeof_object m
      then (case m of Some (JObj kvs) \<Rightarrow> Inr (Some (string_entries kvs)) | _ \<Rightarrow> Inr None)
      else Inr None)"

definition processStdioConfig :: "string \<Rightarrow> json \<Rightarrow> error + StdioConnection" where
  "processStdioConfig server config =
     (if \<not> truthy_and is_string (get_prop config ''command'')
      then Inl (MCPClientError (''Missing or invalid command for server '' @ quoted server) None)
      else if present_but_not is_array (get_prop config ''args'')
      then Inl (invalid ''args'' server ''must be an array of strings'')
      else if (case get_prop config ''args'' of
                 Some (JArr vs) \<Rightarrow> \<not> list_all is_string vs | _ \<Rightarrow> False)
      then Inl (invalid ''args'' server ''must be an array of strings'')
      else
        (case check_string_map ''env'' ''must be an object of key-value pairs'' server
                (get_prop config ''env'') of
           Inl e \<Rightarrow> Inl e
         | Inr env_map \<Rightarrow>
             if present_but_not is_string (get_prop config ''encoding'')
             then Inl (invalid ''encoding'' server ''must be a string'')
             else if present_but_not
                       (\<lambda>v. v = JStr ''strict'' \<or> v = JStr ''ignore'' \<or> v = JStr ''replace'')
                       (get_prop config ''encodingErrorHandler'')
             then Inl (invalid ''encodingErrorHandler'' server
                         ''must be one of: strict, ignore, replace'')
             else
               (case process_policy ''restart'' server (get_prop config ''restart'') of
                  Inl e \<Rightarrow> Inl e
                | Inr pol \<Rightarrow>
                    Inr \<lparr>command = (case as_string (get_prop config ''command'') of
                                      Some s \<Rightarrow> s | None \<Rightarrow> []),
                         args = (case get_prop config ''args'' of
                                   Some (JArr vs) \<Rightarrow> strings_of vs
                                 | _ \<Rightarrow> []),
                         env = env_map,
                         encoding = as_string (get_prop config ''encoding''),
                         encodingErrorHandler = as_string (get_prop config ''encodingErrorHandler''),
                         restart = pol\<rparr>)))"

text \<open>
  \<open>parse_url\<close> stands for the platform's \<open>URL\<close> constructor: the \<open>protocol\<close> of
  the parsed URL (the scheme with its colon), or \<open>None\<close> where the constructor throws.
  The test on the protocol is \<open>startsWith("http")\<close>. Its \<open>throw\<close> is inside the
  \<open>try\<close>, so the \<open>catch\<close> replaces its error by the one for an unparsable URL.
\<close>

definition processSSEConfig ::
  "(string \<Rightarrow> string option) \<Rightarrow> string \<Rightarrow> json \<Rightarrow> error + SSEConnection" where
  "processSSEConfig parse_url server config =
     (case as_string (get_prop config ''url'') of
        None \<Rightarrow> Inl (MCPClientError (''Missing or invalid url for server '' @ quoted server) None)
      | Some u \<Rightarrow>
          if u = [] then Inl (MCPClientError (''Missing or invalid url for server '' @ quoted server) None)
          else if (case parse_url u of None \<Rightarrow> True | Some protocol \<Rightarrow> take 4 protocol \<noteq> ''http'')
          then Inl (invalid ''url'' server ''must be a valid URL'')
          else if get_prop config ''transport'' \<noteq> Some (JStr ''sse'')
          then Inl (invalid ''transport'' server (''must be '' @ squoted ''sse''))
          else
            (case check_string_map ''headers'' ''must be an object'' server
                    (get_prop config ''headers'') of
               Inl e \<Rightarrow> Inl e
             | Inr header_map \<Rightarrow>
                 if present_but_not is_boolean (get_prop config ''useNodeEventSource'')
                 then Inl (invalid ''useNodeEventSource'' server ''must be a boolean'')
                 else
                   (case process_policy ''reconnect'' server (get_prop config ''reconnect'') of
                      Inl e \<Rightarrow> Inl e
                    | Inr pol \<Rightarrow>
                        Inr \<lparr>url = u, headers = header_map,
                             useNodeEventSource = as_boolean (get_prop config ''useNodeEventSource''),
                             reconnect = pol\<rparr>)))"

definition isStdioConnection :: "json \<Rightarrow> bool" where
  "isStdioConnection config =
     (typeof_object config \<and> config \<noteq> JNull
      \<and> (\<not> has_key config ''transport'' \<or> get_prop config ''transport'' = Some (JStr ''stdio''))
      \<and> has_key config ''command''
      \<and> (\<not> has_key config ''args'' \<or> present_and is_array (get_prop config ''args'')))"

definition isSSEConnection :: "json \<Rightarrow> bool" where
  "isSSEConnection config =
     (typeof_object config \<and> config \<noteq> JNull
      \<and> has_key config ''transport''
      \<and> get_prop config ''transport'' = Some (JStr ''sse'')
      \<and> has_key config ''url''
      \<and> present_and is_string (get_prop config ''url''))"

text \<open>
  A plain object lists its own properties with the array indices first, in ascending
  order, and the other keys after them in the order of their creation. An array index
  is the decimal numeral, without leading zeros, of a number below \<open>2^32 - 1\<close>.
  \<open>object_define\<close> creates or overwrites an own property, as an object spread does.
  \<open>object_assign\<close> is the assignment \<open>obj[key] = value\<close> of an object value to an
  object that was created empty: for the key \<open>__proto__\<close> it reaches the setter of
  \<open>Object.prototype\<close>, which changes the prototype and creates no property.
\<close>

definition digit_value :: "char \<Rightarrow> int option" where
  "digit_value c =
     (let n = of_char c :: int in if 48 \<le> n \<and> n \<le> 57 then Some (n - 48) else None)"

fun numeral_value :: "int \<Rightarrow> string \<Rightarrow> int option" where
  "numeral_value acc [] = Some acc"
| "numeral_value acc (c # cs) =
     (case digit_value c of None \<Rightarrow> None | Some d \<Rightarrow> numeral_value (10 * acc + d) cs)"

definition array_index :: "string \<Rightarrow> int option" where
  "array_index k =
     (if k = [] \<or> (hd k = CHR ''0'' \<and> k \<noteq> ''0'') then None
      else (case numeral_value 0 k of
              None \<Rightarrow> None
            | Some n \<Rightarrow> if n \<le> 4294967294 then Some n else None))"

fun insert_index :: "int \<Rightarrow> string \<Rightarrow> 'v \<Rightarrow> (string \<times> 'v) list \<Rightarrow> (string \<times> 'v) list" where
  "insert_index n k v [] = [(k, v)]"
| "insert_index n k v ((k', v') # m) =
     (case array_index k' of
        Some n' \<Rightarrow> if n' < n then (k', v') # insert_index n k v m else (k, v) # (k', v') # m
      | None \<Rightarrow> (k, v) # (k', v') # m)"

definition object_define :: "(string \<times> 'v) list \<Rightarrow> string \<Rightarrow> 'v \<Rightarrow> (string \<times> 'v) list" where
  "object_define m k v =
     (if map_has m k then map_set m k v
      else (case array_index k of
              Some n \<Rightarrow> insert_index n k v m
            | None \<Rightarrow> m @ [(k, v)]))"

definition object_assign :: "(string \<times> 'v) list \<Rightarrow> string \<Rightarrow> 'v \<Rightarrow> (string \<times> 'v) list" where
  "object_assign m k v = (if k = ''__proto__'' then m else object_define m k v)"

text \<open>
  The loop of \<open>processConnections\<close> over \<open>Object.entries(connections)\<close>: an entry that
  is not an object is skipped with a warning; the first entry that fails validation,
  or is neither kind, throws, and the connections processed so far are dropped with
  the local variable that held them.
\<close>

fun processConnections_loop ::
  "(string \<Rightarrow> string option) \<Rightarrow> (string \<times> json) list \<Rightarrow> (string \<times> Connection) list
     \<Rightarrow> warning list \<Rightarrow> error + ((string \<times> Connection) list \<times> warning list)" where
  "processConnections_loop parse_url [] processed ws = Inr (processed, ws)"
| "processConnections_loop parse_url ((server, config) # rest) processed ws =
     (if \<not> typeof_object config \<or> config = JNull
      then processConnections_loop parse_url rest processed (ws @ [InvalidConfiguration server])
      else if isStdioConnection config
      then (case processStdioConfig server config of
              Inl e \<Rightarrow> Inl e
            | Inr c \<Rightarrow> processConnections_loop parse_url rest
                         (object_assign processed server (Stdio c)) ws)
      else if isSSEConnection config
      then (case processSSEConfig parse_url server config of
              Inl e \<Rightarrow> Inl e
            | Inr c \<Rightarrow> processConnections_loop parse_url rest
                         (object_assign processed server (SSE c)) ws)
      else Inl (MCPClientError
                  (''Server '' @ quoted server
                     @ '' has invalid or unsupported configuration. Skipping.'') None))"

definition processConnections ::
  "(string \<Rightarrow> string option) \<Rightarrow> json
     \<Rightarrow> error + ((string \<times> Connection) list \<times> warning list)" where
  "processConnections parse_url connections_arg =
     (case object_entries connections_arg of
        None \<Rightarrow> Inl (TypeError ''Cannot convert undefined or null to object'')
      | Some entries \<Rightarrow> processConnections_loop parse_url entries [] [])"

text \<open>
  \<open>{...this.connections, ...processed}\<close>: every property of the first and then of
  the second is defined on a new object, so the second's values win.
\<close>

definition merge_connections ::
  "(string \<times> Connection) list option \<Rightarrow> (string \<times> Connection) list \<Rightarrow> (string \<times> Connection) list"
where
  "merge_connections old new =
     (case old of
        None \<Rightarrow> new
      | Some m \<Rightarrow> foldl (\<lambda>acc (k, v). object_define acc k v) [] (m @ new))"

definition addConnections ::
  "(string \<Rightarrow> string option) \<Rightarrow> json \<Rightarrow> supervisor \<Rightarrow> error + (supervisor \<times> warning list)" where
  "addConnections parse_url connections_arg s =
     (case processConnections parse_url connections_arg of
        Inl e \<Rightarrow> Inl e
      | Inr (processed, ws) \<Rightarrow>
          Inr (s\<lparr>connections := Some (merge_connections (connections s) processed)\<rparr>, ws))"

text \<open>
  \<open>addConfigFromFile\<close>, from the parsed content of the file: load, interpolate,
  validate \<open>config.servers\<close>, merge. Any error is rethrown as an \<open>MCPClientError\<close>.
\<close>

definition addConfigFromFile ::
  "(string \<Rightarrow> json option) \<Rightarrow> (string \<Rightarrow> string option) \<Rightarrow> json \<Rightarrow> supervisor
     \<Rightarrow> error + (supervisor \<times> warning list)" where
  "addConfigFromFile penv parse_url parsed s =
     (case loadConfigFromFile penv parsed of
        Inl e \<Rightarrow> Inl (MCPClientError (''Failed to add MCP configuration: '' @ error_text e) None)
      | Inr (config, ws) \<Rightarrow>
          (case get_prop config ''servers'' of
             None \<Rightarrow> Inl (MCPClientError
                         (''Failed to add MCP configuration: ''
                            @ error_text (TypeError ''Cannot convert undefined or null to object''))
                         None)
           | Some servers \<Rightarrow>
               (case addConnections parse_url servers s of
                  Inl e \<Rightarrow>
                    Inl (MCPClientError (''Failed to add MCP configuration: '' @ error_text e) None)
                | Inr (s', ws') \<Rightarrow> Inr (s', ws @ ws'))))"

subsection \<open>Notions the statements about the configuration use\<close>

text \<open>
  A place inside a JSON value: the keys and indices that lead to it. The name under
  which \<open>Object.entries\<close> lists a place of the \<open>servers\<close> container is the key, or
  the index in decimal.
\<close>

datatype seg = Key string | Idx nat

fun json_at :: "json \<Rightarrow> seg list \<Rightarrow> json option" where
  "json_at v [] = Some v"
| "json_at (JObj kvs) (Key k # p) = (case map_get kvs k of None \<Rightarrow> None | Some v \<Rightarrow> json_at v p)"
| "json_at (JArr vs) (Idx i # p) = (if i < length vs then json_at (vs ! i) p else None)"
| "json_at v (sg # p) = None"

fun seg_name :: "seg \<Rightarrow> string" where
  "seg_name (Key k) = k"
| "seg_name (Idx i) = decimal i"

text \<open>
  What interpolation makes of one string: the answer of the lookup for the name
  between the delimiters when the string starts with \<open>${\<close>, ends with \<open>}\<close> and the
  answer is truthy; the string itself otherwise.
\<close>

definition interpolate :: "(string \<Rightarrow> json option) \<Rightarrow> string \<Rightarrow> json" where
  "interpolate penv s =
     (if is_placeholder s
      then (case env_value penv (slice_2_m1 s) of Some e \<Rightarrow> e | None \<Rightarrow> JStr s)
      else JStr s)"

text \<open>A string of the form \<open>${NAME}\<close>, and the places that are entries of an \<open>env\<close> map.\<close>

definition placeholder :: "string \<Rightarrow> string" where
  "placeholder NAME = ''${'' @ NAME @ ''}''"

definition env_entry :: "seg list \<Rightarrow> bool" where
  "env_entry p = (length p = 2 \<and> hd p = Key ''env'')"

text \<open>
  The places of a descriptor that interpolation reaches: the entries of its \<open>env\<close>
  map, and every place that does not lie inside a value stored under a key \<open>env\<close>.
\<close>

definition reached :: "seg list \<Rightarrow> bool" where
  "reached p = (p \<noteq> [] \<and> (Key ''env'' \<notin> set (butlast p) \<or> env_entry p))"

text \<open>What the loop body of \<open>processEnvVarsRecursively\<close> makes of one entry.\<close>

definition pevr_value :: "(string \<Rightarrow> json option) \<Rightarrow> string \<Rightarrow> json \<Rightarrow> json" where
  "pevr_value penv key value =
     (case value of
        JStr s \<Rightarrow> interpolate penv s
      | JObj x \<Rightarrow> if key \<noteq> ''env'' then processEnvVarsRecursively penv value else value
      | JArr x \<Rightarrow> if key \<noteq> ''env'' then processEnvVarsRecursively penv value else value
      | _ \<Rightarrow> value)"

text \<open>What loading makes of one entry of \<open>servers\<close>.\<close>

definition entry_result :: "(string \<Rightarrow> json option) \<Rightarrow> string \<Rightarrow> json \<Rightarrow> json" where
  "entry_result penv name d =
     (if is_stdio_entry d then fst (processEnvVars_server penv name d) else d)"

subsection \<open>Example configuration files, environment and URLs\<close>

text \<open>
  The environment has \<open>TOKEN\<close> and \<open>HOME_DIR\<close>, and \<open>EMPTY\<close> set to the empty
  string; \<open>FOO\<close> is not set. The file configures the two servers of the scenarios,
  with placeholders in the \<open>env\<close> map and the arguments of \<open>fs\<close> and in a header
  of \<open>search\<close>.
\<close>

definition example_env :: "string \<Rightarrow> json option" where
  "example_env = process_env [(''TOKEN'', ''secret''), (''HOME_DIR'', ''/home/u''), (''EMPTY'', [])]"

definition fs_descriptor :: json where
  "fs_descriptor =
     JObj [(''transport'', JStr ''stdio''),
           (''command'', JStr ''node''),
           (''args'', JArr [JStr ''fs-server.js'', JStr ''${HOME_DIR}'']),
           (''env'', JObj [(''API_KEY'', JStr ''${TOKEN}''), (''OTHER'', JStr ''${FOO}'')])]"

definition search_descriptor :: json where
  "search_descriptor =
     JObj [(''transport'', JStr ''sse''),
           (''url'', JStr ''https://api.example.com/mcp''),
           (''headers'', JObj [(''Authorization'', JStr ''${TOKEN}'')])]"

definition example_file :: json where
  "example_file =
     JObj [(''servers'', JObj [(''fs'', fs_descriptor), (''search'', search_descriptor)])]"

text \<open>
  A second file. \<open>bare\<close> has no \<open>transport\<close> field. \<open>quirks\<close> has placeholders
  for the unset \<open>FOO\<close> among its arguments, for \<open>EMPTY\<close> and for the name
  \<open>toString\<close> in its \<open>env\<close> map, and for \<open>TOKEN\<close> inside an \<open>env\<close> object that
  is not the descriptor's own. A third file, whose server has a placeholder for the
  unset \<open>FOO\<close> as its \<open>encodingErrorHandler\<close>.
\<close>

definition bare_descriptor :: json where
  "bare_descriptor =
     JObj [(''command'', JStr ''node''), (''args'', JArr [JStr ''${HOME_DIR}''])]"

definition quirks_descriptor :: json where
  "quirks_descriptor =
     JObj [(''transport'', JStr ''stdio''),
           (''command'', JStr ''node''),
           (''args'', JArr [JStr ''${FOO}'']),
           (''env'', JObj [(''E'', JStr ''${EMPTY}''), (''T'', JStr ''${toString}'')]),
           (''meta'', JObj [(''env'', JObj [(''K'', JStr ''${TOKEN}'')])])]"

definition quirks_file :: json where
  "quirks_file =
     JObj [(''servers'', JObj [(''bare'', bare_descriptor), (''quirks'', quirks_descriptor)])]"

definition handler_file :: json where
  "handler_file =
     JObj [(''servers'', JObj [(''h'',
        JObj [(''transport'', JStr ''stdio''),
              (''command'', JStr ''node''),
              (''encodingErrorHandler'', JStr ''${FOO}'')])])]"

text \<open>
  The answers of the platform's \<open>URL\<close> constructor on the URLs of the examples: each
  of them parses, with its scheme and a colon as the protocol. The function models
  the constructor on these strings only.
\<close>

definition example_urls :: "string \<Rightarrow> string option" where
  "example_urls u =
     (if u = ''https://api.example.com/mcp'' then Some ''https:''
      else if u = ''ftp://host'' then Some ''ftp:''
      else if u = ''httpx://host'' then Some ''httpx:''
      else None)"

definition sse_descriptor :: "string \<Rightarrow> json" where
  "sse_descriptor u = JObj [(''transport'', JStr ''sse''), (''url'', JStr u)]"

section \<open>Properties\<close>

subsection \<open>Maps\<close>

lemma map_get_set: "map_get (map_set m k v) k' = (if k' = k then Some v else map_get m k')"
  by (induction m) auto

lemma map_get_delete: "map_get (map_delete m k) k' = (if k' = k then None else map_get m k')"
  by (induction m) auto

lemma map_delete_absent: "map_get m k = None \<Longrightarrow> map_delete m k = m"
  by (induction m) (auto split: if_splits)

lemma map_has_set: "map_has (map_set m k v) k' = (k' = k \<or> map_has m k')"
  by (simp add: map_has_def map_get_set)

subsection \<open>The initialisers\<close>

lemma initialize_steps_error_indep:
  "snd (initialize_steps a name c s) = snd (initialize_steps a name c s')"
  by (cases c)
     (simp_all add: initialize_steps_def initializeStdioConnection_steps_def
        initializeSSEConnection_steps_def loadToolsForServer_def Let_def
        split: option.splits sum.splits prod.splits)

lemma attempt_error_eq:
  "initialize_steps a name c s = (tr, err) \<Longrightarrow> attempt_error a name c = err"
  unfolding attempt_error_def
  using initialize_steps_error_indep[of a name c "new_supervisor None" s] by simp

text \<open>
  Until discovery has succeeded the tool map is the one the initialiser started from;
  a run without error ends with the server in the client map and its discovered tools
  in the tool map.
\<close>

lemma initialize_steps_tools:
  assumes "initialize_steps a name c s = (tr, err)"
  shows "case err of
           Some e \<Rightarrow> (\<forall>st\<in>set tr. serverNameToTools st = serverNameToTools s)
         | None \<Rightarrow> (\<exists>ts. discovery a = Inr ts \<and> tr \<noteq> []
               \<and> (\<forall>st\<in>set (butlast tr). serverNameToTools st = serverNameToTools s)
               \<and> serverNameToTools (last tr) = map_set (serverNameToTools s) name ts
               \<and> map_has (clients (last tr)) name)"
  using assms
  by (cases c)
     (auto simp: initialize_steps_def initializeStdioConnection_steps_def
        initializeSSEConnection_steps_def loadToolsForServer_def Let_def
        setupStdioRestart_def setupSSEReconnect_def map_has_set
        split: option.splits sum.splits prod.splits if_splits)

lemma initialize_steps_ledger:
  "cleanupFunctions (final_state s (fst (initialize_steps a name c s)))
     = cleanupFunctions s @ (if session_opened a c then [session_cleanup name c a] else [])"
  by (cases c)
     (simp_all add: initialize_steps_def initializeStdioConnection_steps_def
        initializeSSEConnection_steps_def loadToolsForServer_def Let_def final_state_def
        setupStdioRestart_def setupSSEReconnect_def session_opened_def session_cleanup_def
        split: option.splits sum.splits prod.splits)

lemma initialize_steps_keeps:
  assumes "n \<noteq> name"
  shows "map_get (clients (final_state s (fst (initialize_steps a name c s)))) n = map_get (clients s) n"
    and "map_get (serverNameToTools (final_state s (fst (initialize_steps a name c s)))) n
           = map_get (serverNameToTools s) n"
  using assms
  by (cases c;
      simp add: initialize_steps_def initializeStdioConnection_steps_def
        initializeSSEConnection_steps_def loadToolsForServer_def Let_def final_state_def
        setupStdioRestart_def setupSSEReconnect_def map_get_set
        split: option.splits sum.splits prod.splits)+

lemma initialize_steps_success:
  assumes "initialize_steps a name c s = (tr, None)"
  shows "map_has (clients (final_state s tr)) name"
    and "\<exists>ts. discovery a = Inr ts \<and> map_get (serverNameToTools (final_state s tr)) name = Some ts"
  using assms
  by (cases c;
      auto simp: initialize_steps_def initializeStdioConnection_steps_def
        initializeSSEConnection_steps_def loadToolsForServer_def Let_def final_state_def
        setupStdioRestart_def setupSSEReconnect_def map_get_set map_has_set
        split: option.splits sum.splits prod.splits)+

text \<open>
  Every error an initialiser throws has the server name in its \<open>serverName\<close> field,
  but for one: the error of a failed discovery on the stdio path.
\<close>

lemma attempt_error_serverName:
  assumes "attempt_error a name c = Some e"
  shows "serverName e = Some name
         \<or> (\<exists>sc err. c = Stdio sc \<and> connect_error a = None \<and> discovery a = Inl err
               \<and> e = MCPClientError
                       (''Failed to load tools from server '' @ quoted name @ '': '' @ err) None)"
  using assms
  by (cases c)
     (auto simp: attempt_error_def initialize_steps_def initializeStdioConnection_steps_def
        initializeSSEConnection_steps_def loadToolsForServer_def Let_def sse_wrap_def
        split: option.splits sum.splits prod.splits)

subsection \<open>The reconnect loop\<close>

lemma body_attempts: "attempts (reconnect_body w name c ma d st) = Suc (attempts st)"
  by (simp add: reconnect_body_def Let_def split: prod.splits option.splits)

lemma reconnect_body_fields:
  assumes "initialize_steps (w name (Suc (attempts st))) name c (cur st) = (tr, err)"
  shows "cur (reconnect_body w name c ma d st) = final_state (cur st) tr"
    and "states (reconnect_body w name c ma d st) = states st @ tr"
    and "connected (reconnect_body w name c ma d st) =
           (connected st \<or> (err = None \<and> map_has (clients (final_state (cur st) tr)) name))"
  using assms by (simp_all add: reconnect_body_def Let_def split: option.splits)

lemma reconnect_body_events:
  assumes "initialize_steps (w name (Suc (attempts st))) name c (cur st) = (tr, err)"
  shows "events (reconnect_body w name c ma d st) =
     events st
     @ [LogAttempt name (Suc (attempts st)) (if js_truthy_num ma then ma else None)]
     @ (case d of Some v \<Rightarrow> if v \<noteq> 0 then [Wait v] else [] | None \<Rightarrow> [])
     @ (case err of Some e \<Rightarrow> [LogAttemptFailed name (Suc (attempts st)) e]
        | None \<Rightarrow> if map_has (clients (final_state (cur st) tr)) name
                  then [LogReconnected name] else [])"
  using assms by (simp add: reconnect_body_def Let_def split: option.splits)

text \<open>
  Total correctness of the loop under a bound: it returns, an invariant of the body
  holds of the result, and the loop condition is false there. The counter grows with
  every run of the body, so the distance to the bound shrinks.
\<close>

lemma reconnect_loop_rule:
  assumes "I st"
    and "\<And>st'. I st' \<Longrightarrow> loop_continues (Some m) st' \<Longrightarrow> I (reconnect_body w name c (Some m) d st')"
  shows "\<exists>r. reconnect_loop w name c (Some m) d st = Some r \<and> I r \<and> \<not> loop_continues (Some m) r"
  using assms(1)
proof (induction "nat (m - int (attempts st))" arbitrary: st rule: less_induct)
  case less
  show ?case
  proof (cases "loop_continues (Some m) st")
    case True
    let ?st' = "reconnect_body w name c (Some m) d st"
    have "nat (m - int (attempts ?st')) < nat (m - int (attempts st))"
      using True by (simp add: loop_continues_def body_attempts)
    moreover have "I ?st'" using assms(2) less.prems True by blast
    ultimately obtain r where "reconnect_loop w name c (Some m) d ?st' = Some r"
      "I r" "\<not> loop_continues (Some m) r"
      using less.hyps by blast
    then show ?thesis using True by (subst reconnect_loop.simps) simp
  next
    case False
    then show ?thesis using less.prems by (subst reconnect_loop.simps) simp
  qed
qed

text \<open>
  The default of \<open>maxAttempts\<close> turns every argument into a number, so
  \<open>attemptReconnect\<close> always runs the loop under a bound.
\<close>

lemma attemptReconnect_rule:
  assumes "I (loop_start (cleanupServerResources name s))"
    and "\<And>st'. I st' \<Longrightarrow> loop_continues (default_param 3 ma) st'
           \<Longrightarrow> I (reconnect_body w name c (default_param 3 ma) (default_param 1000 dm) st')"
  shows "\<exists>r. attemptReconnect w name c ma dm s = Some (report_outcome name r) \<and> I r
            \<and> \<not> loop_continues (default_param 3 ma) r"
proof -
  obtain m where m: "default_param 3 ma = Some m"
    by (cases ma) (simp_all add: default_param_def)
  from reconnect_loop_rule[of I "loop_start (cleanupServerResources name s)" m w name c
      "default_param 1000 dm"] assms
  show ?thesis
    unfolding attemptReconnect_def Let_def m by auto
qed

lemma attemptReconnect_returns: "\<exists>r. attemptReconnect w name c ma dm s = Some r"
  using attemptReconnect_rule[where I="\<lambda>st. True" and w=w and name=name and c=c
      and ma=ma and dm=dm and s=s] by auto

lemma transport_closed_returns: "transport_closed w t s \<noteq> None"
  unfolding transport_closed_def stdio_onclose_def sse_onclose_def
  using attemptReconnect_returns[of w _ _ _ _ s]
  by (auto split: option.splits close_hook.splits)

lemma waits_append: "waits (xs @ ys) = waits xs @ waits ys"
  by (induction xs rule: waits.induct) simp_all

lemma evict_inv_step:
  assumes I: "evict_inv w name s0 st" and nc: "\<not> connected st"
  shows "evict_inv w name s0 (reconnect_body w name c ma d st)"
proof -
  obtain tr err where ini: "initialize_steps (w name (Suc (attempts st))) name c (cur st) = (tr, err)"
    by (cases "initialize_steps (w name (Suc (attempts st))) name c (cur st)")
  note f = reconnect_body_fields[where w=w and name=name and st=st and c=c and tr=tr and err=err
      and ma=ma and d=d, OF ini] body_attempts[of w name c ma d st]
  note t = initialize_steps_tools[OF ini]
  from I nc have none: "map_get (serverNameToTools (cur st)) name = None"
    and ne: "states st \<noteq> []" and lst: "last (states st) = cur st"
    and hd: "hd (states st) = s0"
    and bl: "\<forall>x\<in>set (butlast (states st)). map_get (serverNameToTools x) name = None"
    unfolding evict_inv_def by auto
  have eq: "states st = butlast (states st) @ [cur st]"
    using append_butlast_last_id[OF ne] lst by simp
  have old: "\<forall>x\<in>set (states st). map_get (serverNameToTools x) name = None"
  proof
    fix x assume "x \<in> set (states st)"
    then have "x \<in> set (butlast (states st) @ [cur st])" using eq by simp
    then have "x \<in> set (butlast (states st)) \<or> x = cur st" by auto
    then show "map_get (serverNameToTools x) name = None" using bl none by auto
  qed
  show ?thesis
  proof (cases err)
    case (Some e)
    with t have same: "\<forall>x\<in>set tr. serverNameToTools x = serverNameToTools (cur st)" by simp
    have fin: "serverNameToTools (final_state (cur st) tr) = serverNameToTools (cur st)"
      using same by (cases "tr = []") (simp_all add: final_state_def)
    show ?thesis
      unfolding evict_inv_def f using Some ne hd lst old same none nc fin
      by (auto simp: final_state_def dest!: in_set_butlastD)
  next
    case None
    with t obtain ts where ts: "discovery (w name (Suc (attempts st))) = Inr ts" "tr \<noteq> []"
      "\<forall>x\<in>set (butlast tr). serverNameToTools x = serverNameToTools (cur st)"
      "serverNameToTools (last tr) = map_set (serverNameToTools (cur st)) name ts"
      "map_has (clients (last tr)) name"
      by auto
    show ?thesis
      unfolding evict_inv_def f using None ne hd lst old none nc ts
      by (auto simp: final_state_def butlast_append map_get_set)
  qed
qed

lemma caught_inv_step:
  assumes I: "caught_inv w name c s st" and nc: "\<not> connected st"
  shows "caught_inv w name c s (reconnect_body w name c ma d st)"
proof -
  obtain tr err where ini: "initialize_steps (w name (Suc (attempts st))) name c (cur st) = (tr, err)"
    by (cases "initialize_steps (w name (Suc (attempts st))) name c (cur st)")
  note f = reconnect_body_fields[where w=w and name=name and st=st and c=c and tr=tr and err=err
      and ma=ma and d=d, OF ini] body_attempts[of w name c ma d st]
  note ev = reconnect_body_events[where w=w and name=name and st=st and c=c and tr=tr and err=err
      and ma=ma and d=d, OF ini]
  note t = initialize_steps_tools[OF ini]
  note ae = attempt_error_eq[OF ini]
  have logged: "\<forall>k e. 1 \<le> k \<and> k \<le> Suc (attempts st) \<and> attempt_error (w name k) name c = Some e
        \<longrightarrow> LogAttemptFailed name k e \<in> set (events (reconnect_body w name c ma d st))"
  proof (intro allI impI)
    fix k e assume a: "1 \<le> k \<and> k \<le> Suc (attempts st) \<and> attempt_error (w name k) name c = Some e"
    show "LogAttemptFailed name k e \<in> set (events (reconnect_body w name c ma d st))"
    proof (cases "k = Suc (attempts st)")
      case True
      with a ae have "err = Some e" by simp
      then show ?thesis unfolding ev using True by simp
    next
      case False
      with a I have "LogAttemptFailed name k e \<in> set (events st)"
        unfolding caught_inv_def by auto
      then show ?thesis unfolding ev by simp
    qed
  qed
  have tools: "serverNameToTools (cur (reconnect_body w name c ma d st))
                 = map_delete (serverNameToTools s) name"
    if n: "\<not> connected (reconnect_body w name c ma d st)"
  proof -
    from I nc have old: "serverNameToTools (cur st) = map_delete (serverNameToTools s) name"
      unfolding caught_inv_def by simp
    show ?thesis
    proof (cases err)
      case (Some e)
      with t have "\<forall>x\<in>set tr. serverNameToTools x = serverNameToTools (cur st)" by simp
      then have "serverNameToTools (final_state (cur st) tr) = serverNameToTools (cur st)"
        by (cases "tr = []") (simp_all add: final_state_def)
      then show ?thesis unfolding f using old by simp
    next
      case None
      with t have "tr \<noteq> []" "map_has (clients (last tr)) name" by auto
      then have "connected (reconnect_body w name c ma d st)"
        unfolding f using None by (simp add: final_state_def)
      with n show ?thesis by simp
    qed
  qed
  show ?thesis unfolding caught_inv_def using logged tools by (simp add: f)
qed

subsection \<open>Tool queries and shutdown\<close>

lemma getAllTools_concat: "getAllToolsAsFlatArray s = concat (map snd (serverNameToTools s))"
proof -
  have "foldl (\<lambda>allTools tools. allTools @ tools) acc xs = acc @ concat xs"
    for acc and xs :: "tool list list"
    by (induction xs arbitrary: acc) simp_all
  then show ?thesis by (simp add: getAllToolsAsFlatArray_def map_values_def)
qed

lemma getToolsFromServers_concat:
  "getToolsFromServers names s =
     concat (map (\<lambda>n. case map_get (serverNameToTools s) n of None \<Rightarrow> [] | Some ts \<Rightarrow> ts) names)"
proof -
  have "foldl (\<lambda>allTools serverName.
              case map_get m serverName of Some tools \<Rightarrow> allTools @ tools | None \<Rightarrow> allTools) acc names
        = acc @ concat (map (\<lambda>n. case map_get m n of None \<Rightarrow> [] | Some ts \<Rightarrow> ts) names)"
    for acc and m :: "(string \<times> tool list) list"
    by (induction names arbitrary: acc) (simp_all split: option.splits)
  then show ?thesis by (simp add: getToolsFromServers_def)
qed

lemma invoked_run_cleanups: "invoked (run_cleanups ce cs) = cs"
  by (induction cs) (simp_all split: option.splits)

lemma run_cleanups_logs:
  "c \<in> set cs \<Longrightarrow> ce (cleanup_transport c) = Some err
     \<Longrightarrow> CleanupError err \<in> set (run_cleanups ce cs)"
  by (induction cs) (auto split: option.splits)

subsection \<open>Connecting all servers\<close>

lemma initialize_all_first_failure:
  assumes "initialize_all w cs s = (s', Some e)"
  shows "\<exists>pre name c post s1.
           cs = pre @ (name, c) # post
           \<and> initialize_all w pre s = (s1, None)
           \<and> attempt_error (w name 0) name c = Some e
           \<and> s' = final_state s1 (fst (initialize_steps (w name 0) name c s1))"
  using assms
proof (induction cs arbitrary: s)
  case Nil
  then show ?case by simp
next
  case (Cons x cs)
  obtain name c where x: "x = (name, c)" by (cases x)
  obtain tr err where ini: "initialize_steps (w name 0) name c s = (tr, err)"
    by (cases "initialize_steps (w name 0) name c s")
  show ?case
  proof (cases err)
    case (Some e')
    with Cons.prems x ini have "e' = e" "s' = final_state s tr" by (simp_all add: Let_def)
    with Some ini attempt_error_eq[OF ini] x
    have "x # cs = [] @ (name, c) # cs \<and> initialize_all w [] s = (s, None)
          \<and> attempt_error (w name 0) name c = Some e
          \<and> s' = final_state s (fst (initialize_steps (w name 0) name c s))"
      by simp
    then show ?thesis by blast
  next
    case None
    with Cons.prems x ini have rest: "initialize_all w cs (final_state s tr) = (s', Some e)"
      by (simp add: Let_def)
    from Cons.IH[OF rest] obtain pre n' c' post s1 where
      p: "cs = pre @ (n', c') # post" "initialize_all w pre (final_state s tr) = (s1, None)"
         "attempt_error (w n' 0) n' c' = Some e"
         "s' = final_state s1 (fst (initialize_steps (w n' 0) n' c' s1))"
      by blast
    have "x # cs = (x # pre) @ (n', c') # post" using p(1) by simp
    moreover have "initialize_all w (x # pre) s = (s1, None)"
      using p(2) x ini None by (simp add: Let_def)
    ultimately show ?thesis using p(3,4) by blast
  qed
qed

lemma initialize_all_keeps:
  assumes "n \<notin> fst ` set cs"
  shows "map_get (clients (fst (initialize_all w cs s))) n = map_get (clients s) n
       \<and> map_get (serverNameToTools (fst (initialize_all w cs s))) n = map_get (serverNameToTools s) n"
  using assms
proof (induction cs arbitrary: s)
  case Nil
  then show ?case by simp
next
  case (Cons x cs)
  obtain name c where x: "x = (name, c)" by (cases x)
  obtain tr err where ini: "initialize_steps (w name 0) name c s = (tr, err)"
    by (cases "initialize_steps (w name 0) name c s")
  from Cons.prems x have ne: "n \<noteq> name" and rest: "n \<notin> fst ` set cs" by auto
  show ?case
  proof (cases err)
    case (Some e)
    then show ?thesis
      using x ini initialize_steps_keeps[OF ne, where s=s and a="w name 0" and c=c]
      by (simp add: Let_def)
  next
    case None
    then show ?thesis
      using x ini initialize_steps_keeps[OF ne, where s=s and a="w name 0" and c=c]
        Cons.IH[OF rest, of "final_state s tr"]
      by (simp add: Let_def)
  qed
qed

text \<open>
  Servers whose initialiser has returned stay connected while later servers of the
  same call are processed: they are in the client map, and the tool map has what
  their discovery returned.
\<close>

lemma initialize_all_connected:
  assumes "initialize_all w cs s = (s', None)" and "distinct (map fst cs)" and "(n, c) \<in> set cs"
  shows "map_has (clients s') n
       \<and> (\<exists>ts. discovery (w n 0) = Inr ts \<and> map_get (serverNameToTools s') n = Some ts)"
  using assms
proof (induction cs arbitrary: s)
  case Nil
  then show ?case by simp
next
  case (Cons x cs)
  obtain name c0 where x: "x = (name, c0)" by (cases x)
  obtain tr err where ini: "initialize_steps (w name 0) name c0 s = (tr, err)"
    by (cases "initialize_steps (w name 0) name c0 s")
  from Cons.prems(1) x ini have err: "err = None"
    and rest: "initialize_all w cs (final_state s tr) = (s', None)"
    by (auto simp: Let_def split: option.splits)
  show ?case
  proof (cases "(n, c) \<in> set cs")
    case True
    with Cons.IH[OF rest] Cons.prems(2) show ?thesis by simp
  next
    case False
    with Cons.prems(3) x have eq: "n = name" "c = c0" by auto
    from Cons.prems(2) x have notin: "name \<notin> fst ` set cs" by simp
    from initialize_all_keeps[OF notin, of w "final_state s tr"] rest
    have "map_get (clients s') name = map_get (clients (final_state s tr)) name"
      "map_get (serverNameToTools s') name = map_get (serverNameToTools (final_state s tr)) name"
      by simp_all
    with initialize_steps_success[OF ini[unfolded err]] eq show ?thesis
      by (simp add: map_has_def)
  qed
qed

subsection \<open>Interpolation\<close>

lemma map_get_map_entries:
  "map_get (map (\<lambda>(k, v). (k, f k v)) kvs) k = map_option (f k) (map_get kvs k)"
  by (induction kvs) auto

lemma pevr_entries_map: "pevr_entries penv kvs = map (\<lambda>(k, v). (k, pevr_value penv k v)) kvs"
  by (induction kvs)
     (auto simp: pevr_value_def interpolate_def split: json.splits option.splits)

lemma pevr_items_map: "pevr_items penv vs = map (pevr_value penv ''0'') vs"
  by (induction vs)
     (auto simp: pevr_value_def interpolate_def split: json.splits option.splits)

lemma json_at_string_container:
  "json_at v (sg # p) = Some x \<Longrightarrow> (\<exists>kvs. v = JObj kvs) \<or> (\<exists>vs. v = JArr vs)"
  by (cases v; cases sg) simp_all

lemma pevr_value_container:
  assumes "json_at v (sg # p) = Some x" and "k \<noteq> ''env''"
  shows "pevr_value penv k v = processEnvVarsRecursively penv v"
  using json_at_string_container[OF assms(1)] assms(2) by (auto simp: pevr_value_def)

lemma pevr_value_env:
  assumes "json_at v (sg # p) = Some x"
  shows "pevr_value penv ''env'' v = v"
  using json_at_string_container[OF assms(1)] by (auto simp: pevr_value_def)

lemma pevr_at:
  assumes "json_at v p = Some (JStr s)" and "p \<noteq> []" and "Key ''env'' \<notin> set (butlast p)"
  shows "json_at (processEnvVarsRecursively penv v) p = Some (interpolate penv s)"
  using assms
proof (induction p arbitrary: v)
  case Nil
  then show ?case by simp
next
  case (Cons sg p)
  show ?case
  proof (cases "p = []")
    case True
    with Cons.prems(1) show ?thesis
      by (cases v; cases sg)
         (auto simp: pevr_entries_map pevr_items_map map_get_map_entries pevr_value_def
            split: option.splits if_splits)
  next
    case False
    then obtain sg' p' where p: "p = sg' # p'" by (cases p) auto
    from Cons.prems(3) False have ne: "sg \<noteq> Key ''env''" and rest: "Key ''env'' \<notin> set (butlast p)"
      by auto
    show ?thesis
    proof (cases v)
      case (JObj kvs)
      with Cons.prems(1) obtain k v1 where k: "sg = Key k" "map_get kvs k = Some v1"
        "json_at v1 p = Some (JStr s)"
        by (cases sg) (auto split: option.splits)
      from ne k have kne: "k \<noteq> ''env''" by simp
      have "pevr_value penv k v1 = processEnvVarsRecursively penv v1"
        using pevr_value_container[OF k(3)[unfolded p] kne] .
      with Cons.IH[OF k(3) False rest] show ?thesis
        using JObj k by (simp add: pevr_entries_map map_get_map_entries)
    next
      case (JArr vs)
      with Cons.prems(1) obtain i where i: "sg = Idx i" "i < length vs"
        "json_at (vs ! i) p = Some (JStr s)"
        by (cases sg) (auto split: if_splits)
      have "pevr_value penv ''0'' (vs ! i) = processEnvVarsRecursively penv (vs ! i)"
        using pevr_value_container[OF i(3)[unfolded p]] by simp
      with Cons.IH[OF i(3) False rest] show ?thesis
        using JArr i by (simp add: pevr_items_map)
    qed (use Cons.prems(1) in \<open>simp_all\<close>)
  qed
qed

text \<open>The first pass, over the entries of the \<open>env\<close> map.\<close>

lemma env_pass_value_fst:
  "fst (env_pass_value penv server v) = (case v of JStr s \<Rightarrow> interpolate penv s | _ \<Rightarrow> v)"
  by (auto simp: env_pass_value_def interpolate_def split: json.splits option.splits)

lemma env_pass_at:
  assumes "json_at e [sg] = Some (JStr s)"
  shows "json_at (fst (env_pass penv server e)) [sg] = Some (interpolate penv s)"
  using assms
  by (cases e; cases sg)
     (auto simp: env_pass_def map_get_map_entries env_pass_value_fst split: option.splits if_splits)

lemma env_pass_shape:
  "(\<exists>kvs. e = JObj kvs) \<Longrightarrow> (\<exists>kvs. fst (env_pass penv server e) = JObj kvs)"
  "(\<exists>vs. e = JArr vs) \<Longrightarrow> (\<exists>vs. fst (env_pass penv server e) = JArr vs)"
  by (auto simp: env_pass_def)

lemma env_pass_warns:
  assumes "json_at e [sg] = Some (JStr s)" and "is_placeholder s"
    and "env_value penv (slice_2_m1 s) = None"
  shows "EnvVarNotFound (slice_2_m1 s) server \<in> set (snd (env_pass penv server e))"
proof (cases e)
  case (JObj kvs)
  with assms(1) obtain k where k: "sg = Key k" "map_get kvs k = Some (JStr s)"
    by (cases sg) (auto split: option.splits)
  have "(k, JStr s) \<in> set kvs" using k(2) by (induction kvs) (auto split: if_splits)
  then show ?thesis using JObj assms(2,3)
    by (force simp: env_pass_def env_pass_value_def)
next
  case (JArr vs)
  with assms(1) obtain i where i: "sg = Idx i" "i < length vs" "vs ! i = JStr s"
    by (cases sg) (auto split: if_splits)
  then have "JStr s \<in> set vs" by (metis nth_mem)
  then show ?thesis using JArr assms(2,3)
    by (force simp: env_pass_def env_pass_value_def)
qed (use assms(1) in \<open>simp_all\<close>)

lemma map_get_set_other: "k' \<noteq> k \<Longrightarrow> map_get (map_set m k v) k' = map_get m k'"
  by (induction m) auto

lemma map_get_set_same: "map_get (map_set m k v) k = Some v"
  by (induction m) auto

lemma processEnvVars_server_at:
  assumes at: "json_at d p = Some (JStr s)" and r: "reached p"
  shows "json_at (fst (processEnvVars_server penv server d)) p = Some (interpolate penv s)"
proof -
  from r obtain sg p' where p: "p = sg # p'" by (cases p) (auto simp: reached_def env_entry_def)
  from json_at_string_container[OF at[unfolded p]]
  have obj: "typeof_object d" "d \<noteq> JNull" by auto
  show ?thesis
  proof (cases "length p = 2 \<and> hd p = Key ''env''")
    case True
    then obtain sg' where p2: "p = [Key ''env'', sg']"
      using p by (cases p') auto
    from at p2 obtain kvs e where d: "d = JObj kvs" "map_get kvs ''env'' = Some e"
      "json_at e [sg'] = Some (JStr s)"
      by (cases d) (auto split: option.splits)
    from json_at_string_container[OF d(3)] have e: "js_truthy e" "typeof_object e" by auto
    let ?e' = "fst (env_pass penv server e)"
    have shape: "(\<exists>kvs. ?e' = JObj kvs) \<or> (\<exists>vs. ?e' = JArr vs)"
      using json_at_string_container[OF d(3)] env_pass_shape[of e penv server] by blast
    then have keep: "pevr_value penv ''env'' ?e' = ?e'" by (auto simp: pevr_value_def)
    have "fst (processEnvVars_server penv server d)
            = processEnvVarsRecursively penv (JObj (map_set kvs ''env'' ?e'))"
      using d e by (simp add: processEnvVars_server_def Let_def split: prod.splits)
    then show ?thesis
      using env_pass_at[OF d(3), of penv server] keep
      by (simp add: p2 pevr_entries_map map_get_map_entries map_get_set_same)
  next
    case False
    with r have noenv: "Key ''env'' \<notin> set (butlast p)" and ne: "p \<noteq> []"
      by (auto simp: reached_def env_entry_def)
    have "\<exists>c1. fst (processEnvVars_server penv server d) = processEnvVarsRecursively penv c1
            \<and> json_at c1 p = Some (JStr s)"
    proof (cases d)
      case (JObj kvs)
      show ?thesis
      proof (cases "map_get kvs ''env''")
        case None
        then have "fst (processEnvVars_server penv server d) = processEnvVarsRecursively penv d"
          using JObj by (simp add: processEnvVars_server_def Let_def)
        with at show ?thesis by blast
      next
        case (Some e)
        show ?thesis
        proof (cases "js_truthy e \<and> typeof_object e")
          case True
          let ?c1 = "JObj (map_set kvs ''env'' (fst (env_pass penv server e)))"
          have f: "fst (processEnvVars_server penv server d) = processEnvVarsRecursively penv ?c1"
            using JObj Some True
            by (simp add: processEnvVars_server_def Let_def split: prod.splits)
          have "sg \<noteq> Key ''env''"
          proof
            assume k: "sg = Key ''env''"
            show False
            proof (cases "p' = []")
              case True
              with at p k JObj Some have "e = JStr s" by simp
              with \<open>js_truthy e \<and> typeof_object e\<close> show False by simp
            next
              case False
              with noenv p k show False by simp
            qed
          qed
          then have "json_at ?c1 p = json_at d p"
            using JObj p by (cases sg) (simp_all add: map_get_set_other)
          with at have "json_at ?c1 p = Some (JStr s)" by simp
          with f show ?thesis by blast
        next
          case False
          then have "fst (processEnvVars_server penv server d) = processEnvVarsRecursively penv d"
            using JObj Some by (auto simp: processEnvVars_server_def Let_def)
          with at show ?thesis by blast
        qed
      qed
    next
      case (JArr vs)
      then have "fst (processEnvVars_server penv server d) = processEnvVarsRecursively penv d"
        by (simp add: processEnvVars_server_def Let_def)
      with at show ?thesis by blast
    qed (use obj in \<open>simp_all\<close>)
    then obtain c1 where c1: "fst (processEnvVars_server penv server d) = processEnvVarsRecursively penv c1"
      "json_at c1 p = Some (JStr s)" by blast
    show ?thesis unfolding c1(1) by (rule pevr_at[OF c1(2) ne noenv])
  qed
qed

lemma processEnvVars_server_warns:
  assumes at: "json_at d [Key ''env'', sg] = Some (JStr s)" and "is_placeholder s"
    and "env_value penv (slice_2_m1 s) = None"
  shows "EnvVarNotFound (slice_2_m1 s) server \<in> set (snd (processEnvVars_server penv server d))"
proof -
  from at obtain kvs e where d: "d = JObj kvs" "map_get kvs ''env'' = Some e"
    "json_at e [sg] = Some (JStr s)"
    by (cases d) (auto split: option.splits)
  from json_at_string_container[OF d(3)] have e: "js_truthy e" "typeof_object e" by auto
  have "snd (processEnvVars_server penv server d) = snd (env_pass penv server e)"
    using d e by (simp add: processEnvVars_server_def Let_def split: prod.splits)
  with env_pass_warns[OF d(3) assms(2,3), of server] show ?thesis by simp
qed

subsection \<open>Loading\<close>

lemma interpolate_entry_fst:
  "fst (interpolate_entry penv (k, v)) = (k, entry_result penv k v)"
  by (simp add: interpolate_entry_def entry_result_def split: prod.splits)

lemma indexed_nth: "i < length xs \<Longrightarrow> indexed xs ! i = (decimal i, xs ! i)"
  by (simp add: indexed_def)

lemma length_indexed: "length (indexed xs) = length xs"
  by (simp add: indexed_def)

lemma map_get_mem: "map_get m k = Some v \<Longrightarrow> (k, v) \<in> set m"
  by (induction m) (auto split: if_splits)

lemma json_at_append:
  "json_at v (p @ q) = (case json_at v p of None \<Rightarrow> None | Some x \<Rightarrow> json_at x q)"
proof (induction v p rule: json_at.induct)
  case (1 v)
  then show ?case by simp
qed (auto split: option.splits)

text \<open>The parts of a successful load.\<close>

lemma loadConfigFromFile_Inr:
  assumes "loadConfigFromFile penv config = Inr (config', ws)"
  obtains ckvs servers entries where
    "config = JObj ckvs" "map_get ckvs ''servers'' = Some servers"
    "object_entries servers = Some entries"
    "\<not> list_ex (\<lambda>entry. snd entry = JNull) entries"
    "config' = JObj (map_set ckvs ''servers''
                 (rebuild servers (map (\<lambda>entry. fst (interpolate_entry penv entry)) entries)))"
    "ws = concat (map (\<lambda>entry. snd (interpolate_entry penv entry)) entries)"
proof -
  from assms obtain ckvs where c: "config = JObj ckvs"
    by (cases config) (auto simp: loadConfigFromFile_def has_key_def)
  from assms c obtain servers where s: "map_get ckvs ''servers'' = Some servers"
    by (auto simp: loadConfigFromFile_def has_key_def split: if_splits)
  from assms c s obtain entries where e: "object_entries servers = Some entries"
    by (auto simp: loadConfigFromFile_def has_key_def split: if_splits option.splits)
  from assms c s e show ?thesis
    by (intro that[of ckvs servers entries])
       (auto simp: loadConfigFromFile_def has_key_def Let_def comp_def split: if_splits)
qed

lemma loadConfigFromFile_entry:
  assumes load: "loadConfigFromFile penv config = Inr (config', ws)"
    and at: "json_at config [Key ''servers'', sg] = Some d"
  shows "json_at config' [Key ''servers'', sg] = Some (entry_result penv (seg_name sg) d)"
    and "set (snd (interpolate_entry penv (seg_name sg, d))) \<subseteq> set ws"
proof -
  from load obtain ckvs servers entries where
    c: "config = JObj ckvs" and s: "map_get ckvs ''servers'' = Some servers"
    and e: "object_entries servers = Some entries"
    and c': "config' = JObj (map_set ckvs ''servers''
                 (rebuild servers (map (\<lambda>entry. fst (interpolate_entry penv entry)) entries)))"
    and w: "ws = concat (map (\<lambda>entry. snd (interpolate_entry penv entry)) entries)"
    by (rule loadConfigFromFile_Inr)
  from at c s have at': "json_at servers [sg] = Some d" by simp
  have m: "map (\<lambda>entry. fst (interpolate_entry penv entry)) entries
             = map (\<lambda>(k, v). (k, entry_result penv k v)) entries"
    by (rule map_cong) (auto simp: interpolate_entry_fst)
  have "json_at (rebuild servers (map (\<lambda>entry. fst (interpolate_entry penv entry)) entries)) [sg]
          = Some (entry_result penv (seg_name sg) d)
        \<and> (seg_name sg, d) \<in> set entries"
  proof (cases servers)
    case (JObj skvs)
    with at' obtain k where k: "sg = Key k" "map_get skvs k = Some d"
      by (cases sg) (auto split: option.splits)
    with JObj e show ?thesis
      unfolding m by (auto simp: map_get_map_entries map_get_mem)
  next
    case (JArr vs)
    with at' obtain i where i: "sg = Idx i" "i < length vs" "vs ! i = d"
      by (cases sg) (auto split: if_splits)
    from JArr e have en: "entries = indexed vs" by simp
    have "(decimal i, d) \<in> set (indexed vs)"
      using indexed_nth[OF i(2)] i(2,3) length_indexed[of vs] by (metis nth_mem)
    then show ?thesis
      using JArr i en unfolding m
      by (simp add: length_indexed indexed_nth split_beta)
  qed (use at' in \<open>simp_all\<close>)
  then show "json_at config' [Key ''servers'', sg] = Some (entry_result penv (seg_name sg) d)"
    and "set (snd (interpolate_entry penv (seg_name sg, d))) \<subseteq> set ws"
    unfolding c' w by (auto simp: map_get_set_same)
qed

lemma loadConfigFromFile_isl:
  "isl (loadConfigFromFile penv config) = isl (loadConfigFromFile penv' config)"
  by (simp add: loadConfigFromFile_def Let_def split: option.splits)

text \<open>
  What a successful load leaves at a string of a \<open>stdio\<close> entry that interpolation
  reaches, the warning for an entry of its \<open>env\<close> map, and the other entries.
\<close>

lemma loaded_string_at:
  assumes load: "loadConfigFromFile penv config = Inr (config', ws)"
    and at: "json_at config [Key ''servers'', sg] = Some d"
    and "is_stdio_entry d" and "json_at d p = Some (JStr s)" and "reached p"
  shows "json_at config' (Key ''servers'' # sg # p) = Some (interpolate penv s)"
proof -
  have "json_at config' ([Key ''servers'', sg] @ p)
          = json_at (fst (processEnvVars_server penv (seg_name sg) d)) p"
    unfolding json_at_append using loadConfigFromFile_entry(1)[OF load at] assms(3)
    by (simp add: entry_result_def)
  with processEnvVars_server_at[OF assms(4,5), of penv "seg_name sg"] show ?thesis by simp
qed

lemma loaded_warning:
  assumes load: "loadConfigFromFile penv config = Inr (config', ws)"
    and at: "json_at config [Key ''servers'', sg] = Some d"
    and "is_stdio_entry d" and "json_at d [Key ''env'', x] = Some (JStr s)"
    and "is_placeholder s" and "env_value penv (slice_2_m1 s) = None"
  shows "EnvVarNotFound (slice_2_m1 s) (seg_name sg) \<in> set ws"
proof -
  have "snd (interpolate_entry penv (seg_name sg, d))
          = snd (processEnvVars_server penv (seg_name sg) d)"
    using assms(3) by (simp add: interpolate_entry_def split: prod.splits)
  with processEnvVars_server_warns[OF assms(4,5,6), of "seg_name sg"]
    loadConfigFromFile_entry(2)[OF load at]
  show ?thesis by auto
qed

lemma other_entries_untouched:
  assumes "loadConfigFromFile penv config = Inr (config', ws)"
    and "json_at config [Key ''servers'', sg] = Some d" and "\<not> is_stdio_entry d"
  shows "json_at config' [Key ''servers'', sg] = Some d"
  using loadConfigFromFile_entry(1)[OF assms(1,2)] assms(3) by (simp add: entry_result_def)

text \<open>
  The strings the code takes for placeholders are those of the form \<open>${NAME}\<close>, and
  the name it looks up is \<open>NAME\<close>.
\<close>

lemma placeholder_facts:
  "is_placeholder (placeholder n)" "slice_2_m1 (placeholder n) = n"
  by (simp_all add: is_placeholder_def slice_2_m1_def placeholder_def)

lemma is_placeholder_iff: "is_placeholder s \<longleftrightarrow> (\<exists>n. s = placeholder n)"
proof
  assume a: "is_placeholder s"
  then have t: "take 2 s = ''${''" and l: "s \<noteq> []" "last s = CHR ''}''"
    by (simp_all add: is_placeholder_def)
  from t have "length s \<ge> 2" by (cases s; cases "tl s") auto
  have "s = take 2 s @ drop 2 s" by simp
  moreover have "drop 2 s \<noteq> []"
  proof
    assume "drop 2 s = []"
    with \<open>s = take 2 s @ drop 2 s\<close> t have "s = ''${''" by simp
    with l show False by simp
  qed
  then have "drop 2 s = butlast (drop 2 s) @ [CHR ''}'']"
    using l by (metis append_butlast_last_id last_drop drop_eq_Nil not_le)
  ultimately have "s = placeholder (butlast (drop 2 s))"
    using t by (metis placeholder_def)
  then show "\<exists>n. s = placeholder n" ..
next
  assume "\<exists>n. s = placeholder n"
  then show "is_placeholder s" using placeholder_facts(1) by auto
qed

lemma interpolate_placeholder:
  "interpolate penv (placeholder n)
     = (case env_value penv n of Some e \<Rightarrow> e | None \<Rightarrow> JStr (placeholder n))"
  by (simp add: interpolate_def placeholder_facts)

subsection \<open>Validation\<close>

lemma process_policy_error:
  "process_policy label server p = Inl e \<Longrightarrow> \<exists>m. e = MCPClientError m None"
  by (auto simp: process_policy_def invalid_def split: if_splits option.splits)

lemma check_string_map_error:
  "check_string_map label fm server m = Inl e \<Longrightarrow> \<exists>m. e = MCPClientError m None"
  by (auto simp: check_string_map_def invalid_def split: if_splits option.splits json.splits)

lemma processStdioConfig_error:
  "processStdioConfig server config = Inl e \<Longrightarrow> \<exists>m. e = MCPClientError m None"
  by (auto simp: processStdioConfig_def invalid_def
      dest: process_policy_error check_string_map_error split: if_splits sum.splits)

lemma processSSEConfig_error:
  "processSSEConfig parse_url server config = Inl e \<Longrightarrow> \<exists>m. e = MCPClientError m None"
  by (auto simp: processSSEConfig_def invalid_def
      dest: process_policy_error check_string_map_error
      split: if_splits sum.splits option.splits)

lemma processConnections_loop_error:
  "processConnections_loop parse_url entries acc ws = Inl e \<Longrightarrow> \<exists>m. e = MCPClientError m None"
  by (induction parse_url entries acc ws rule: processConnections_loop.induct)
     (auto dest: processStdioConfig_error processSSEConfig_error split: if_splits sum.splits)

text \<open>
  An SSE descriptor whose URL does not parse, or whose protocol does not start with
  \<open>http\<close>, fails validation, and so does every set of descriptors that has it.
\<close>

lemma processSSEConfig_rejects:
  assumes "get_prop config ''url'' = Some (JStr u)"
    and "case parse_url u of None \<Rightarrow> True | Some protocol \<Rightarrow> take 4 protocol \<noteq> ''http''"
  shows "isl (processSSEConfig parse_url server config)"
  using assms by (auto simp: processSSEConfig_def split: option.splits)

lemma processConnections_loop_rejects:
  assumes "(server, config) \<in> set entries"
    and "get_prop config ''transport'' = Some (JStr ''sse'')"
    and "get_prop config ''url'' = Some (JStr u)"
    and "case parse_url u of None \<Rightarrow> True | Some protocol \<Rightarrow> take 4 protocol \<noteq> ''http''"
  shows "\<exists>m. processConnections_loop parse_url entries acc ws = Inl (MCPClientError m None)"
proof -
  have obj: "typeof_object config" "config \<noteq> JNull" "\<not> isStdioConnection config"
    "isSSEConnection config"
    using assms(2,3)
    by (cases config; simp add: isStdioConnection_def isSSEConnection_def has_key_def
          present_and_def)+
  have rej: "isl (processSSEConfig parse_url server config)"
    by (rule processSSEConfig_rejects[where u=u and parse_url=parse_url]) (use assms in auto)
  have "isl (processConnections_loop parse_url entries acc ws)"
    using assms(1)
  proof (induction entries arbitrary: acc ws)
    case Nil
    then show ?case by simp
  next
    case (Cons entry rest)
    obtain server' config' where en: "entry = (server', config')" by (cases entry)
    show ?case
    proof (cases "(server', config') = (server, config)")
      case True
      then show ?thesis
        using obj rej en by (auto split: sum.splits)
    next
      case False
      with Cons.prems en have "(server, config) \<in> set rest" by auto
      with Cons.IH en show ?thesis by (auto split: sum.splits)
    qed
  qed
  then show ?thesis
    using processConnections_loop_error[of parse_url entries acc ws]
    by (cases "processConnections_loop parse_url entries acc ws") auto
qed

section \<open>The claims\<close>

subsection \<open>C1: a policy without \<open>maxAttempts\<close>\<close>

text \<open>
  C1 (as amended). The claim reads: for a policy whose \<open>maxAttempts\<close> is absent the
  reconnect loop retries without limit. The code gives the parameter the default 3:
  for every world, server, connection, delay and state, \<open>attemptReconnect\<close> called
  without \<open>maxAttempts\<close> returns; it has made at most 3 attempts, and when it
  returns unconnected it has made exactly 3.
\<close>

theorem maxAttempts_absent_three_attempts:
  "\<exists>r. attemptReconnect w name c None dm s = Some r
     \<and> attempts r \<le> 3 \<and> (connected r \<or> attempts r = 3)"
proof -
  have "\<exists>r. attemptReconnect w name c None dm s = Some (report_outcome name r)
          \<and> attempts r \<le> 3 \<and> \<not> loop_continues (default_param 3 None) r"
    by (rule attemptReconnect_rule[where I="\<lambda>st. attempts st \<le> 3"])
       (simp_all add: loop_start_def loop_continues_def default_param_def body_attempts)
  then show ?thesis
    by (auto simp: report_outcome_def loop_continues_def default_param_def)
qed

theorem maxAttempts_absent_three_attempts_witness:
  "map_option attempts
     (attemptReconnect flaky ''fs'' (Stdio fs_connection) None None both_started) = Some 3
   \<and> map_option connected
     (attemptReconnect flaky ''fs'' (Stdio fs_connection) None None both_started) = Some True"
proof -
  have "map_option connected
     (attemptReconnect flaky ''fs'' (Stdio fs_connection) None None both_started) = Some True"
    by code_simp
  moreover have "map_option (\<lambda>r. 3 \<le> attempts r)
     (attemptReconnect flaky ''fs'' (Stdio fs_connection) None None both_started) = Some True"
    by code_simp
  ultimately show ?thesis
    using maxAttempts_absent_three_attempts[of flaky "''fs''" "Stdio fs_connection" None both_started]
    by auto
qed

text \<open>
  The claim as stated fails: \<open>fs\<close> is started with the policy \<open>{enabled: true}\<close>,
  its transport closes, and every reconnect is refused. The handler returns after
  three failed attempts, unconnected.
\<close>

theorem maxAttempts_absent_gives_up:
  "map_option attempts (transport_closed down_after_start (fresh_id ''fs'' 0) fs_started) = Some 3
   \<and> map_option connected (transport_closed down_after_start (fresh_id ''fs'' 0) fs_started)
       = Some False"
  by code_simp

subsection \<open>C3: errors of reconnect attempts stay inside the loop\<close>

text \<open>
  C3. For every world, whatever the attempts throw, \<open>attemptReconnect\<close> returns, and
  so does the close handler of any transport: the model has no path on which an
  error leaves them. Every error an attempt throws is in the log, with the number of
  the attempt. When the loop returns unconnected the attempts are exhausted, the tool
  map is the one before the call without the server, so \<open>getTools\<close> for the server
  is empty and \<open>getTools()\<close> lists the tools of the other servers.
\<close>

theorem reconnect_errors_caught:
  "\<exists>r. attemptReconnect w name c ma dm s = Some r
     \<and> (\<forall>k e. 1 \<le> k \<and> k \<le> attempts r \<and> attempt_error (w name k) name c = Some e
           \<longrightarrow> LogAttemptFailed name k e \<in> set (events r))
     \<and> (\<not> connected r \<longrightarrow>
           (\<exists>m. default_param 3 ma = Some m \<and> m \<le> int (attempts r))
           \<and> serverNameToTools (cur r) = map_delete (serverNameToTools s) name
           \<and> getTools (Some [name]) (cur r) = []
           \<and> getTools None (cur r) = getTools None (cleanupServerResources name s))
     \<and> transport_closed w t s \<noteq> None"
proof -
  let ?s0 = "cleanupServerResources name s"
  have init: "caught_inv w name c s (loop_start ?s0)"
    by (simp add: caught_inv_def loop_start_def cleanupServerResources_def)
  have "\<exists>r. attemptReconnect w name c ma dm s = Some (report_outcome name r)
          \<and> caught_inv w name c s r \<and> \<not> loop_continues (default_param 3 ma) r"
    by (rule attemptReconnect_rule[where I="caught_inv w name c s", OF init])
       (simp add: caught_inv_step loop_continues_def)
  then obtain r where r: "attemptReconnect w name c ma dm s = Some (report_outcome name r)"
    "caught_inv w name c s r" "\<not> loop_continues (default_param 3 ma) r" by blast
  obtain m where m: "default_param 3 ma = Some m"
    by (cases ma) (simp_all add: default_param_def)
  have ex: "\<not> connected r \<Longrightarrow> m \<le> int (attempts r)"
    using r(3) by (simp add: loop_continues_def m)
  have tl: "\<not> connected r \<Longrightarrow> serverNameToTools (cur r) = map_delete (serverNameToTools s) name"
    using r(2) by (simp add: caught_inv_def)
  have q: "\<not> connected r \<Longrightarrow> getTools (Some [name]) (cur r) = []
       \<and> getTools None (cur r) = getTools None ?s0"
    using tl by (simp add: getTools_def getToolsFromServers_concat getAllTools_concat
        map_get_delete cleanupServerResources_def)
  show ?thesis
    using r(1,2) ex tl q m transport_closed_returns[of w t s] unfolding caught_inv_def
    by (auto simp: report_outcome_def)
qed

text \<open>
  The scenario of the specification: \<open>fs\<close> with
  \<open>{enabled: true, maxAttempts: 2, delayMs: 0}\<close> beside \<open>search\<close>; the transport of
  \<open>fs\<close> closes and both reconnects are refused.
\<close>

theorem reconnect_errors_caught_witness:
  "map_option connected
     (attemptReconnect down_after_start ''fs'' (Stdio fs_twice) (Some 2) (Some 0) scenario_started)
     = Some False
   \<and> map_option attempts
     (attemptReconnect down_after_start ''fs'' (Stdio fs_twice) (Some 2) (Some 0) scenario_started)
     = Some 2
   \<and> map_option (\<lambda>r. getTools (Some [''fs'']) (cur r))
     (attemptReconnect down_after_start ''fs'' (Stdio fs_twice) (Some 2) (Some 0) scenario_started)
     = Some []
   \<and> map_option (\<lambda>r. getTools None (cur r))
     (attemptReconnect down_after_start ''fs'' (Stdio fs_twice) (Some 2) (Some 0) scenario_started)
     = Some [Tool ''search_tool'']
   \<and> transport_closed down_after_start (fresh_id ''fs'' 0) scenario_started \<noteq> None"
proof -
  let ?run = "attemptReconnect down_after_start ''fs'' (Stdio fs_twice) (Some 2) (Some 0)
                scenario_started"
  have c: "map_option connected ?run = Some False" by code_simp
  have a: "map_option attempts ?run = Some 2" by code_simp
  have g: "map_option (\<lambda>r. getTools None (cur r)) ?run = Some [Tool ''search_tool'']"
    by code_simp
  from reconnect_errors_caught[of down_after_start "''fs''" "Stdio fs_twice" "Some 2" "Some 0"
      scenario_started "fresh_id ''fs'' 0"]
  obtain r where r: "?run = Some r"
    "\<not> connected r \<longrightarrow> getTools (Some [''fs'']) (cur r) = []"
    "transport_closed down_after_start (fresh_id ''fs'' 0) scenario_started \<noteq> None"
    by blast
  from r(1) c have "\<not> connected r" by simp
  with r show ?thesis using c a g by simp
qed

subsection \<open>C4: eviction comes first\<close>

text \<open>
  C4. Every call of \<open>attemptReconnect\<close>, whatever its arguments, starts by evicting
  the server: the first state of the run is \<open>cleanupServerResources\<close> of the state
  at entry, and there the client map, the tool map and the transport map have no
  entry for the server. In every state the supervisor passes through from there up to
  the last one the tool map has no entry for the server. The last state has one only
  when the loop ended connected, and then it is the list the discovery of that last
  attempt returned.
\<close>

theorem reconnect_evicts_first:
  "\<exists>r. attemptReconnect w name c ma dm s = Some r
     \<and> states r \<noteq> [] \<and> hd (states r) = cleanupServerResources name s
     \<and> map_get (clients (hd (states r))) name = None
     \<and> map_get (serverNameToTools (hd (states r))) name = None
     \<and> map_get (transportInstances (hd (states r))) name = None
     \<and> last (states r) = cur r
     \<and> (\<forall>x\<in>set (butlast (states r)). map_get (serverNameToTools x) name = None)
     \<and> (if connected r
        then \<exists>ts. discovery (w name (attempts r)) = Inr ts
                \<and> map_get (serverNameToTools (cur r)) name = Some ts
        else map_get (serverNameToTools (cur r)) name = None)"
proof -
  let ?s0 = "cleanupServerResources name s"
  have init: "evict_inv w name ?s0 (loop_start ?s0)"
    by (simp add: evict_inv_def loop_start_def cleanupServerResources_def map_get_delete)
  have "\<exists>r. attemptReconnect w name c ma dm s = Some (report_outcome name r)
          \<and> evict_inv w name ?s0 r \<and> \<not> loop_continues (default_param 3 ma) r"
    by (rule attemptReconnect_rule[where I="evict_inv w name ?s0", OF init])
       (simp add: evict_inv_step loop_continues_def)
  then obtain r where r: "attemptReconnect w name c ma dm s = Some (report_outcome name r)"
    "evict_inv w name ?s0 r" by blast
  have ev: "map_get (clients ?s0) name = None" "map_get (serverNameToTools ?s0) name = None"
    "map_get (transportInstances ?s0) name = None"
    by (simp_all add: cleanupServerResources_def map_get_delete)
  show ?thesis
    using r ev unfolding evict_inv_def by (auto simp: report_outcome_def)
qed

text \<open>
  A run with three attempts: refused, connected without discovery, reconnected. It
  passes through ten states before the last; none of them has tools for \<open>fs\<close>.
\<close>

theorem reconnect_evicts_first_witness:
  "map_option (\<lambda>r. length (butlast (states r)))
     (attemptReconnect flaky ''fs'' (Stdio fs_connection) None None both_started) = Some 10
   \<and> map_option (\<lambda>r. list_all (\<lambda>x. map_get (serverNameToTools x) ''fs'' = None)
                       (butlast (states r)))
     (attemptReconnect flaky ''fs'' (Stdio fs_connection) None None both_started) = Some True
   \<and> map_option (\<lambda>r. map_get (serverNameToTools (cur r)) ''fs'')
     (attemptReconnect flaky ''fs'' (Stdio fs_connection) None None both_started)
     = Some (Some [Tool ''fs_tool''])"
proof -
  let ?run = "attemptReconnect flaky ''fs'' (Stdio fs_connection) None None both_started"
  have l: "map_option (\<lambda>r. length (butlast (states r))) ?run = Some 10" by code_simp
  have t: "map_option (\<lambda>r. map_get (serverNameToTools (cur r)) ''fs'') ?run
             = Some (Some [Tool ''fs_tool''])" by code_simp
  from reconnect_evicts_first[of flaky "''fs''" "Stdio fs_connection" None None both_started]
  obtain r where r: "?run = Some r"
    "\<forall>x\<in>set (butlast (states r)). map_get (serverNameToTools x) ''fs'' = None"
    by blast
  then show ?thesis using l t by (simp add: list_all_iff)
qed

subsection \<open>C5: the first failing server aborts \<open>initializeConnections\<close>\<close>

text \<open>
  C5 (the code departs from the claim). Three servers are configured, \<open>search\<close>,
  \<open>fs\<close> and \<open>late\<close>; all connect, and tool discovery fails for \<open>fs\<close>. The call
  throws an \<open>MCPClientError\<close> whose message names \<open>fs\<close> but whose \<open>serverName\<close>
  field is absent. \<open>search\<close> stays in the client map and the tool map, \<open>fs\<close> is in
  the client map without tools, and \<open>late\<close> has not been touched.
\<close>

theorem initializeConnections_discovery_error_unnamed:
  "snd (initializeConnections discovery_fails_for_fs three_servers)
     = Inl (MCPClientError (''Failed to load tools from server '' @ quoted ''fs'' @ '': timeout'')
              None)
   \<and> map fst (clients (fst (initializeConnections discovery_fails_for_fs three_servers)))
     = [''search'', ''fs'']
   \<and> map fst (serverNameToTools (fst (initializeConnections discovery_fails_for_fs three_servers)))
     = [''search'']
   \<and> map fst (transportInstances (fst (initializeConnections discovery_fails_for_fs three_servers)))
     = [''search'', ''fs'']"
  by code_simp

subsection \<open>C6: the default delay\<close>

text \<open>
  C6 (as amended). The claim reads: without \<open>delayMs\<close> the delay is 1000 ms for a
  stdio server and 3000 ms for an SSE server. The code has one default, 1000, for both:
  for every connection, \<open>attemptReconnect\<close> called without \<open>delayMs\<close> waits 1000 ms
  before each attempt, once per attempt.
\<close>

theorem delayMs_absent_waits_1000:
  "\<exists>r. attemptReconnect w name c ma None s = Some r
     \<and> waits (events r) = replicate (attempts r) 1000"
proof -
  have step: "waits (events (reconnect_body w name c ma' (default_param 1000 None) st))
      = replicate (attempts (reconnect_body w name c ma' (default_param 1000 None) st)) 1000"
    if "waits (events st) = replicate (attempts st) 1000" for st ma'
  proof -
    obtain tr err where ini: "initialize_steps (w name (Suc (attempts st))) name c (cur st) = (tr, err)"
      by (cases "initialize_steps (w name (Suc (attempts st))) name c (cur st)")
    note ev = reconnect_body_events[where w=w and name=name and st=st and c=c and tr=tr and err=err
        and ma=ma' and d="default_param 1000 None", OF ini]
    show ?thesis
      unfolding ev body_attempts using that
      by (simp add: waits_append default_param_def replicate_append_same split: option.splits)
  qed
  have "\<exists>r. attemptReconnect w name c ma None s = Some (report_outcome name r)
          \<and> waits (events r) = replicate (attempts r) 1000
          \<and> \<not> loop_continues (default_param 3 ma) r"
    by (rule attemptReconnect_rule[where I="\<lambda>st. waits (events st) = replicate (attempts st) 1000"])
       (simp_all add: loop_start_def step)
  then show ?thesis
    by (auto simp: report_outcome_def waits_append)
qed

theorem delayMs_absent_waits_1000_witness:
  "map_option (\<lambda>r. waits (events r))
     (attemptReconnect down_after_start ''search'' (SSE search_connection) (Some 2) None
        search_started) = Some [1000, 1000]"
proof -
  let ?run = "attemptReconnect down_after_start ''search'' (SSE search_connection) (Some 2) None
                search_started"
  have a: "map_option attempts ?run = Some 2" by code_simp
  from delayMs_absent_waits_1000[of down_after_start "''search''" "SSE search_connection"
      "Some 2" search_started]
  obtain r where r: "?run = Some r" "waits (events r) = replicate (attempts r) 1000" by blast
  with a have "attempts r = 2" by simp
  with r show ?thesis by (simp add: numeral_2_eq_2)
qed

text \<open>
  The claim as stated fails for SSE: \<open>search\<close> is started with the policy
  \<open>{enabled: true}\<close>, its transport closes and every reconnect is refused. The three
  waits are of 1000 ms each, not of the 3000 ms the claim gives.
\<close>

theorem sse_default_delay_is_not_3000:
  "map_option (\<lambda>r. waits (events r))
     (transport_closed down_after_start (fresh_id ''search'' 0) search_started)
     = Some [1000, 1000, 1000]
   \<and> map_option (\<lambda>r. waits (events r))
     (transport_closed down_after_start (fresh_id ''search'' 0) search_started)
     \<noteq> Some (replicate 3 (spec_default_delayMs (SSE search_connection)))"
  by code_simp

subsection \<open>C8: the order of \<open>getTools\<close>\<close>

text \<open>
  C8 (as amended). \<open>getTools()\<close> without argument returns the tool lists of the
  registry one after the other, in the registry's insertion order. For every
  non-empty list of names, \<open>getTools(names)\<close> returns the lists of the named
  servers one after the other in the order of the names, with nothing for a name
  that has no entry. The claim as stated has no such restriction; for the empty
  list of names the code returns all tools.
\<close>

theorem getTools_order:
  "getTools None s = spec_allTools s
   \<and> (names \<noteq> [] \<longrightarrow> getTools (Some names) s = spec_toolsFor names s)"
  by (simp add: getTools_def getAllTools_concat getToolsFromServers_concat
      spec_allTools_def spec_toolsFor_def)

theorem getTools_order_witness:
  "[''search'', ''nope'', ''fs''] \<noteq> []
   \<and> getTools (Some [''search'', ''nope'', ''fs'']) both_started
       = spec_toolsFor [''search'', ''nope'', ''fs''] both_started
   \<and> spec_toolsFor [''search'', ''nope'', ''fs''] both_started
       = [Tool ''search_tool'', Tool ''fs_tool'']
   \<and> getTools None both_started = [Tool ''fs_tool'', Tool ''search_tool'']"
proof -
  have "spec_toolsFor [''search'', ''nope'', ''fs''] both_started
          = [Tool ''search_tool'', Tool ''fs_tool'']" by code_simp
  moreover have "spec_allTools both_started = [Tool ''fs_tool'', Tool ''search_tool'']"
    by code_simp
  ultimately show ?thesis
    using getTools_order[of both_started "[''search'', ''nope'', ''fs'']"] by simp
qed

theorem getTools_named_fails_for_no_names:
  "getTools (Some []) both_started \<noteq> spec_toolsFor [] both_started"
  by code_simp

subsection \<open>C9: shutdown\<close>

text \<open>
  C9. \<open>close()\<close> calls the cleanup functions of the ledger, all of them and in the
  order of the ledger; no error leaves it, and every rejection of a cleanup function
  is logged; afterwards the ledger, the client map, the tool map and the transport
  map are empty, whatever the cleanup functions did. The ledger itself grows by one
  function, at its end, in each run of an initialiser that opens a session, and not
  otherwise.
\<close>

theorem close_runs_ledger_and_clears:
  "invoked (snd (snd (close ce s))) = cleanupFunctions s
   \<and> fst (snd (close ce s)) = None
   \<and> (\<forall>c\<in>set (cleanupFunctions s). \<forall>err. ce (cleanup_transport c) = Some err
         \<longrightarrow> CleanupError err \<in> set (snd (snd (close ce s))))
   \<and> cleanupFunctions (fst (close ce s)) = []
   \<and> clients (fst (close ce s)) = []
   \<and> serverNameToTools (fst (close ce s)) = []
   \<and> transportInstances (fst (close ce s)) = []
   \<and> cleanupFunctions (final_state s (fst (initialize_steps a name c s)))
       = cleanupFunctions s @ (if session_opened a c then [session_cleanup name c a] else [])"
  by (simp add: close_def Let_def invoked_run_cleanups run_cleanups_logs initialize_steps_ledger)

theorem close_runs_ledger_and_clears_witness:
  "cleanupFunctions both_started = [CloseStdio ''fs'' 20, CloseSSE ''search'' 60]
   \<and> fs_close_fails (cleanup_transport (CloseStdio ''fs'' 20)) = Some ''EPIPE''
   \<and> snd (snd (close fs_close_fails both_started))
       = [Closing (CloseStdio ''fs'' 20), CleanupError ''EPIPE'', Closing (CloseSSE ''search'' 60)]
   \<and> invoked (snd (snd (close fs_close_fails both_started)))
       = [CloseStdio ''fs'' 20, CloseSSE ''search'' 60]
   \<and> clients (fst (close fs_close_fails both_started)) = []
   \<and> serverNameToTools (fst (close fs_close_fails both_started)) = []"
proof -
  have l: "cleanupFunctions both_started = [CloseStdio ''fs'' 20, CloseSSE ''search'' 60]"
    by code_simp
  have f: "fs_close_fails (cleanup_transport (CloseStdio ''fs'' 20)) = Some ''EPIPE''"
    by code_simp
  have g: "snd (snd (close fs_close_fails both_started))
       = [Closing (CloseStdio ''fs'' 20), CleanupError ''EPIPE'', Closing (CloseSSE ''search'' 60)]"
    by code_simp
  show ?thesis
    using close_runs_ledger_and_clears[of fs_close_fails both_started] l f g by simp
qed

subsection \<open>C10: the empty list of names\<close>

text \<open>
  C10. \<open>getTools([])\<close> is \<open>getTools()\<close>: all tools of all servers, where the filter
  over no names, \<open>getToolsFromServers([])\<close>, is the empty list.
\<close>

theorem getTools_empty_names_is_all:
  "getTools (Some []) s = getTools None s \<and> getToolsFromServers [] s = []"
  by (simp add: getTools_def getToolsFromServers_def)

theorem getTools_empty_names_is_all_witness:
  "getTools (Some []) both_started = [Tool ''fs_tool'', Tool ''search_tool'']"
proof -
  have "getTools None both_started = [Tool ''fs_tool'', Tool ''search_tool'']" by code_simp
  then show ?thesis using getTools_empty_names_is_all[of both_started] by simp
qed

subsection \<open>C2: interpolation of environment variables\<close>

text \<open>
  C2 (as amended). The claim reads: in every descriptor being validated, every string
  of the form \<open>${NAME}\<close> anywhere in it is replaced by the value of \<open>NAME\<close> when
  \<open>NAME\<close> is set, and is kept, with a warning and without failing validation, when it
  is not. The code does this for a descriptor that is an entry of \<open>servers\<close> in a file
  being loaded and whose \<open>transport\<close> is the string \<open>stdio\<close>: every string of the form
  \<open>${NAME}\<close> that is an entry of the descriptor's \<open>env\<close> map, or lies anywhere else
  in the descriptor but inside a value stored under a key \<open>env\<close>, is replaced by the
  value of \<open>NAME\<close> when \<open>NAME\<close> is set to a string other than the empty one; when
  \<open>NAME\<close> is unset (the lookup is \<open>undefined\<close>) or set to the empty string, the
  string is kept, a warning with the variable and the server is given if the string
  is an entry of the \<open>env\<close> map, and the file loads whatever the environment is.
\<close>

theorem stdio_descriptors_are_interpolated:
  assumes load: "loadConfigFromFile penv config = Inr (config', ws)"
    and at: "json_at config [Key ''servers'', sg] = Some d"
    and stdio: "is_stdio_entry d"
    and str: "json_at d p = Some (JStr (placeholder NAME))"
    and r: "reached p"
  shows "(\<forall>v. penv NAME = Some (JStr v) \<and> v \<noteq> []
            \<longrightarrow> json_at config' (Key ''servers'' # sg # p) = Some (JStr v))
       \<and> (penv NAME = None \<or> penv NAME = Some (JStr [])
            \<longrightarrow> json_at config' (Key ''servers'' # sg # p) = Some (JStr (placeholder NAME))
                \<and> (env_entry p \<longrightarrow> EnvVarNotFound NAME (seg_name sg) \<in> set ws))
       \<and> \<not> isl (loadConfigFromFile penv' config)"
proof -
  note a = loaded_string_at[OF load at stdio str r]
  have set: "json_at config' (Key ''servers'' # sg # p) = Some (JStr v)"
    if "penv NAME = Some (JStr v)" "v \<noteq> []" for v
    using a that by (simp add: interpolate_placeholder env_value_def)
  have unset: "env_value penv NAME = None" if "penv NAME = None \<or> penv NAME = Some (JStr [])"
    using that by (auto simp: env_value_def)
  have kept: "json_at config' (Key ''servers'' # sg # p) = Some (JStr (placeholder NAME))"
    if "penv NAME = None \<or> penv NAME = Some (JStr [])"
    using a unset[OF that] by (simp add: interpolate_placeholder)
  have warned: "EnvVarNotFound NAME (seg_name sg) \<in> set ws"
    if u: "penv NAME = None \<or> penv NAME = Some (JStr [])" and e: "env_entry p"
  proof -
    from e obtain x where p: "p = [Key ''env'', x]"
      by (cases p; cases "tl p") (auto simp: env_entry_def)
    from loaded_warning[OF load at stdio str[unfolded p]] unset[OF u]
    show ?thesis by (simp add: placeholder_facts)
  qed
  have loads: "\<not> isl (loadConfigFromFile penv' config)"
    using loadConfigFromFile_isl[of penv' config penv] load by simp
  show ?thesis using set kept warned loads by blast
qed

text \<open>
  The example file under the example environment: the \<open>env\<close> entry for \<open>TOKEN\<close> and
  the argument for \<open>HOME_DIR\<close> of \<open>fs\<close> are replaced, and the \<open>env\<close> entry for the
  unset \<open>FOO\<close> is kept, with a warning.
\<close>

theorem stdio_descriptors_are_interpolated_witness:
  "(case loadConfigFromFile example_env example_file of
      Inl e \<Rightarrow> False
    | Inr (c, ws) \<Rightarrow>
        json_at c [Key ''servers'', Key ''fs'', Key ''env'', Key ''API_KEY''] = Some (JStr ''secret'')
        \<and> json_at c [Key ''servers'', Key ''fs'', Key ''args'', Idx 1] = Some (JStr ''/home/u'')
        \<and> json_at c [Key ''servers'', Key ''fs'', Key ''env'', Key ''OTHER''] = Some (JStr ''${FOO}'')
        \<and> EnvVarNotFound ''FOO'' ''fs'' \<in> set ws)"
proof -
  have "\<not> isl (loadConfigFromFile example_env example_file)" by code_simp
  then obtain c ws where load: "loadConfigFromFile example_env example_file = Inr (c, ws)"
    by (cases "loadConfigFromFile example_env example_file") auto
  have fs: "json_at example_file [Key ''servers'', Key ''fs''] = Some fs_descriptor"
    by code_simp
  have st: "is_stdio_entry fs_descriptor" by code_simp
  have p1: "json_at fs_descriptor [Key ''env'', Key ''API_KEY''] = Some (JStr (placeholder ''TOKEN''))"
    "reached [Key ''env'', Key ''API_KEY'']" "example_env ''TOKEN'' = Some (JStr ''secret'')"
    by code_simp+
  have p2: "json_at fs_descriptor [Key ''args'', Idx 1] = Some (JStr (placeholder ''HOME_DIR''))"
    "reached [Key ''args'', Idx 1]" "example_env ''HOME_DIR'' = Some (JStr ''/home/u'')"
    by code_simp+
  have p3: "json_at fs_descriptor [Key ''env'', Key ''OTHER''] = Some (JStr (placeholder ''FOO''))"
    "reached [Key ''env'', Key ''OTHER'']" "example_env ''FOO'' = None"
    "env_entry [Key ''env'', Key ''OTHER'']" "placeholder ''FOO'' = ''${FOO}''"
    by code_simp+
  have a1: "json_at c [Key ''servers'', Key ''fs'', Key ''env'', Key ''API_KEY''] = Some (JStr ''secret'')"
    using stdio_descriptors_are_interpolated[OF load fs st p1(1,2)] p1(3) by simp
  have a2: "json_at c [Key ''servers'', Key ''fs'', Key ''args'', Idx 1] = Some (JStr ''/home/u'')"
    using stdio_descriptors_are_interpolated[OF load fs st p2(1,2)] p2(3) by simp
  have a3: "json_at c [Key ''servers'', Key ''fs'', Key ''env'', Key ''OTHER''] = Some (JStr ''${FOO}'')
            \<and> EnvVarNotFound ''FOO'' ''fs'' \<in> set ws"
    using stdio_descriptors_are_interpolated[OF load fs st p3(1,2)] p3(3,4,5) by simp
  show ?thesis using load a1 a2 a3 by simp
qed

text \<open>
  The claim as stated fails, clause by clause.
  \<^item> Only \<open>stdio\<close> entries: after the example file has been added, the header of the
    SSE descriptor \<open>search\<close> is still \<open>${TOKEN}\<close>, and \<open>TOKEN\<close> is set.
  \<^item> Only files: \<open>addConnections\<close> with the descriptor of \<open>fs\<close> passed inline keeps
    all three placeholders.
  \<^item> In the second file, \<open>bare\<close> has no \<open>transport\<close>; it is validated as a stdio
    connection, and its argument \<open>${HOME_DIR}\<close> is kept although \<open>HOME_DIR\<close> is set.
    In \<open>quirks\<close>, the argument \<open>${FOO}\<close> for the unset \<open>FOO\<close> is kept without a
    warning; the \<open>env\<close> entry \<open>${EMPTY}\<close> is kept, with a warning, although \<open>EMPTY\<close>
    is set; the \<open>env\<close> entry \<open>${toString}\<close> is replaced by a function, without a
    warning, although no such variable is set; \<open>${TOKEN}\<close> inside the \<open>env\<close> object
    under \<open>meta\<close> is kept although \<open>TOKEN\<close> is set.
  \<^item> The third file loads, but its placeholder for the unset \<open>FOO\<close> is no valid
    \<open>encodingErrorHandler\<close>, and validation fails.
\<close>

theorem interpolation_claim_fails:
  "addConfigFromFile example_env example_urls example_file (new_supervisor None)
     = Inr (new_supervisor (Some
              [(''fs'', Stdio \<lparr>command = ''node'', args = [''fs-server.js'', ''/home/u''],
                               env = Some [(''API_KEY'', ''secret''), (''OTHER'', ''${FOO}'')],
                               encoding = None, encodingErrorHandler = None, restart = None\<rparr>),
               (''search'', SSE \<lparr>url = ''https://api.example.com/mcp'',
                                  headers = Some [(''Authorization'', ''${TOKEN}'')],
                                  useNodeEventSource = None, reconnect = None\<rparr>)]),
            [EnvVarNotFound ''FOO'' ''fs''])
   \<and> addConnections example_urls (JObj [(''fs'', fs_descriptor)]) (new_supervisor None)
     = Inr (new_supervisor (Some
              [(''fs'', Stdio \<lparr>command = ''node'', args = [''fs-server.js'', ''${HOME_DIR}''],
                               env = Some [(''API_KEY'', ''${TOKEN}''), (''OTHER'', ''${FOO}'')],
                               encoding = None, encodingErrorHandler = None, restart = None\<rparr>)]),
            [])
   \<and> isStdioConnection bare_descriptor
   \<and> loadConfigFromFile example_env quirks_file
     = Inr (JObj [(''servers'', JObj
              [(''bare'', bare_descriptor),
               (''quirks'',
                JObj [(''transport'', JStr ''stdio''),
                      (''command'', JStr ''node''),
                      (''args'', JArr [JStr ''${FOO}'']),
                      (''env'', JObj [(''E'', JStr ''${EMPTY}''), (''T'', JFunction ''toString'')]),
                      (''meta'', JObj [(''env'', JObj [(''K'', JStr ''${TOKEN}'')])])])])],
            [EnvVarNotFound ''EMPTY'' ''quirks''])
   \<and> \<not> isl (loadConfigFromFile example_env handler_file)
   \<and> isl (addConfigFromFile example_env example_urls handler_file (new_supervisor None))
   \<and> example_env ''TOKEN'' = Some (JStr ''secret'')
   \<and> example_env ''HOME_DIR'' = Some (JStr ''/home/u'')
   \<and> example_env ''EMPTY'' = Some (JStr [])
   \<and> example_env ''FOO'' = None
   \<and> map_get [(''TOKEN'', ''secret''), (''HOME_DIR'', ''/home/u''), (''EMPTY'', [])] ''toString''
     = None"
  by code_simp

subsection \<open>C7: the URL of an SSE descriptor\<close>

text \<open>
  C7 (the code departs from the claim). The descriptor
  \<open>{transport: "sse", url: "httpx://host"}\<close> has a URL that parses, with the
  protocol \<open>httpx:\<close>, which is neither \<open>http:\<close> nor \<open>https:\<close>. The test
  \<open>startsWith("http")\<close> lets it pass, and the descriptor is in the validated set.
  The example of the claim, \<open>ftp://host\<close>, is rejected.
\<close>

theorem sse_url_with_http_prefixed_scheme_accepted:
  "processConnections example_urls (JObj [(''legacy'', sse_descriptor ''httpx://host'')])
     = Inr ([(''legacy'', SSE \<lparr>url = ''httpx://host'', headers = None,
                                useNodeEventSource = None, reconnect = None\<rparr>)], [])
   \<and> example_urls ''httpx://host'' = Some ''httpx:''
   \<and> isl (processConnections example_urls (JObj [(''legacy'', sse_descriptor ''ftp://host'')]))"
  by code_simp

end
